theory Spec2Isabelle
  imports Complex_Main
begin

section \<open>The capture page of the Huddle client (CaptureAudio.js)\<close>

text \<open>
  The component \<^verbatim>\<open>CaptureAudio\<close> is a React function component.  Its handlers run one at a
  time on the browser's event loop; an \<^verbatim>\<open>async\<close> handler runs up to an \<^verbatim>\<open>await\<close> on the
  platform or the network and is resumed by a later event.  The model below is a state record
  for the component (React state, refs, and the platform objects the refs point to), one
  function per handler of the source, and an \<^verbatim>\<open>event\<close> type with a \<^verbatim>\<open>step\<close> function for the
  event loop.  What the platform or the backend answers is an argument of the handler.

  A handler defined in the component body reads the React state of the render in which it was
  created (a JavaScript closure over the \<^verbatim>\<open>const\<close>s of \<^verbatim>\<open>useState\<close>), while a ref
  (\<^verbatim>\<open>useRef\<close>) is shared and always current.  The record \<^verbatim>\<open>render\<close> is that snapshot; every
  handler takes the snapshot it closes over as its first argument.  A state setter takes
  effect in the state record at once: it is what the next render shows, and what the handlers
  of the next click close over.

  Tracks, recorders, interval timers and audio contexts live in stores (lists) of the state;
  a ref holds an index into its store, \<^verbatim>\<open>null\<close> is \<open>None\<close>.  The handles of timers and
  animation frames are positive in a browser, so a handle is truthy.  An \<^verbatim>\<open>async\<close> function
  is cut where it awaits the network: \<^verbatim>\<open>stopCapture\<close> and \<^verbatim>\<open>sendBlobForTranscription\<close>
  are resumed by the event that carries the answer.  \<^verbatim>\<open>startCapture\<close> is taken as one
  step, with the answers of the dialogs and of the backend as its argument.  The ticker of
  the elapsed time, the folders and the unmounting of the component are left out.
\<close>

subsection \<open>Strings\<close>

text \<open>A JavaScript string is a sequence of UTF-16 code units.\<close>

type_synonym jsstring = "nat list"

definition str :: "string \<Rightarrow> jsstring" where
  "str cs = map of_char cs"

text \<open>White space and line terminators of ECMAScript, as removed by \<^verbatim>\<open>String.prototype.trim\<close>.\<close>

definition isWhiteSpace :: "nat \<Rightarrow> bool" where
  "isWhiteSpace c \<longleftrightarrow>
     c \<in> set [0x9, 0xA, 0xB, 0xC, 0xD, 0x20, 0xA0, 0x1680, 0x2028, 0x2029, 0x202F, 0x205F,
              0x3000, 0xFEFF]
     \<or> (0x2000 \<le> c \<and> c \<le> 0x200A)"

definition trim :: "jsstring \<Rightarrow> jsstring" where
  "trim t = rev (dropWhile isWhiteSpace (rev (dropWhile isWhiteSpace t)))"

text \<open>\<^verbatim>\<open>Array.prototype.join\<close>.\<close>

fun join :: "jsstring \<Rightarrow> jsstring list \<Rightarrow> jsstring" where
  "join sep [] = []"
| "join sep [x] = x"
| "join sep (x # y # ys) = x @ sep @ join sep (y # ys)"

subsection \<open>Data\<close>

datatype session_status = Idle | Requesting | Capturing | Stopping

datatype capture_source = System | Tab | MicSystem

text \<open>A transcript entry; \<^verbatim>\<open>id\<close> is \<^verbatim>\<open>Date.now()\<close>, milliseconds of the wall clock.\<close>

record entry =
  e_id :: int
  e_speaker :: jsstring
  e_text :: jsstring
  e_timestamp :: jsstring
  e_confidence :: rat

text \<open>The React state a handler closes over.\<close>

record render =
  c_isPaused :: bool
  c_meetingId :: "nat option"
  c_liveTranscript :: "entry list"
  c_meetingTitle :: jsstring
  c_meetingDescription :: jsstring
  c_selectedFolder :: jsstring
  c_selectedLanguage :: jsstring
  c_currentSpeaker :: jsstring
  c_captureSource :: capture_source

text \<open>Platform objects.  A stream is the list of its tracks, each an index into the track store.\<close>

datatype track_kind = Audio | Video

datatype ready_state = Live | Ended

record track =
  kind :: track_kind
  readyState :: ready_state
  onended :: "render option"

datatype recording_state = Inactive | Recording | Paused

datatype recorder_role = FullSession | Cycle render

record recorder =
  rec_state :: recording_state
  timeslice :: nat
  chunks :: "nat list"
  role :: recorder_role
  stopQueued :: bool

record interval =
  period :: nat
  cleared :: bool
  tick_env :: render

datatype context_state = Running | Closed

text \<open>Errors, network answers and requests.\<close>

datatype js_error = JsError (err_name: string) (err_message: string)

datatype 'a json = Unparsable | Parsed 'a

datatype 'a response = NetworkError js_error | Response bool "'a json"

datatype media_answer = Rejected js_error | Granted "track_kind list"

datatype request =
    PostRecordingStart jsstring jsstring
  | PostTranscribeAudio nat jsstring "nat option" jsstring
  | PostTranscription nat jsstring "jsstring \<times> nat" jsstring
  | PutMeeting nat jsstring jsstring jsstring
  | PostRecordingStop nat

text \<open>Suspended \<^verbatim>\<open>async\<close> calls: a stop sequence waiting for the backend, an upload in flight.\<close>

datatype stop_phase = AwaitTranscript | AwaitMeeting | AwaitFinalize | StopDone

record stop_call =
  sc_env :: render
  sc_meeting :: nat
  sc_phase :: stop_phase

datatype upload_phase = Reading | Requested | UploadDone

record upload =
  up_env :: render
  up_size :: nat
  up_phase :: upload_phase

record component =
  isCapturing :: bool
  isPaused :: bool
  recordingTime :: nat
  audioLevel :: rat
  captureSource :: capture_source
  meetingTitle :: jsstring
  meetingDescription :: jsstring
  selectedLanguage :: jsstring
  selectedFolder :: jsstring
  meetingId :: "nat option"
  liveTranscript :: "entry list"
  currentSpeaker :: jsstring
  error :: jsstring
  status :: session_status
  audioChunks :: "nat list"
  systemStreamRef :: "nat list option"
  micStreamRef :: "nat list option"
  combinedStreamRef :: "nat list option"
  audioContextRef :: "nat option"
  analyserRef :: "nat option"
  mediaRecorderRef :: "nat option"
  animationFrameRef :: "nat option"
  isCapturingRef :: bool
  meetingIdRef :: "nat option"
  transcriptionRecorderRef :: "nat option"
  transcriptionChunksRef :: "nat list"
  transcriptionTimerRef :: "nat option"
  isTranscribingRef :: bool
  activeStreamRef :: "nat list option"
  tracks :: "track list"
  recorders :: "recorder list"
  intervals :: "interval list"
  contexts :: "context_state list"
  frames :: "nat list"
  frameSerial :: nat
  requests :: "request list"
  meetingsCreated :: "nat list"
  stops :: "stop_call list"
  uploads :: "upload list"

text \<open>The state of a freshly mounted component (the arguments of \<^verbatim>\<open>useState\<close>, \<^verbatim>\<open>useRef\<close>).\<close>

definition mounted :: component where
  "mounted = \<lparr>
     isCapturing = False, isPaused = False, recordingTime = 0, audioLevel = 0,
     captureSource = System, meetingTitle = [], meetingDescription = [],
     selectedLanguage = str ''en-US'', selectedFolder = str ''recent'', meetingId = None,
     liveTranscript = [], currentSpeaker = str ''Speaker'', error = [], status = Idle,
     audioChunks = [], systemStreamRef = None, micStreamRef = None, combinedStreamRef = None,
     audioContextRef = None, analyserRef = None, mediaRecorderRef = None,
     animationFrameRef = None, isCapturingRef = False, meetingIdRef = None,
     transcriptionRecorderRef = None, transcriptionChunksRef = [],
     transcriptionTimerRef = None, isTranscribingRef = False, activeStreamRef = None,
     tracks = [], recorders = [], intervals = [], contexts = [], frames = [], frameSerial = 0,
     requests = [], meetingsCreated = [], stops = [], uploads = [] \<rparr>"

text \<open>The snapshot the handlers of the current render close over.\<close>

definition render_of :: "component \<Rightarrow> render" where
  "render_of s = \<lparr>
     c_isPaused = isPaused s, c_meetingId = meetingId s, c_liveTranscript = liveTranscript s,
     c_meetingTitle = meetingTitle s, c_meetingDescription = meetingDescription s,
     c_selectedFolder = selectedFolder s, c_selectedLanguage = selectedLanguage s,
     c_currentSpeaker = currentSpeaker s, c_captureSource = captureSource s \<rparr>"

subsection \<open>Meeting ids\<close>

text \<open>
  A meeting id is the \<^verbatim>\<open>meeting_id\<close> of the backend's answer, a number here.  As a
  condition (\<^verbatim>\<open>if (meetingId)\<close>, \<^verbatim>\<open>!meetingIdRef.current\<close>) a missing id, \<^verbatim>\<open>null\<close> and
  0 are falsy.
\<close>

fun truthy :: "nat option \<Rightarrow> bool" where
  "truthy None = False"
| "truthy (Some m) = (m \<noteq> 0)"

subsection \<open>Platform operations\<close>

text \<open>
  \<^verbatim>\<open>MediaStreamTrack.stop()\<close> ends a track without firing \<^verbatim>\<open>ended\<close>;
  \<^verbatim>\<open>stream.getTracks().forEach(t => t.stop())\<close> is a fold over the stream.
\<close>

definition stopTrack :: "nat \<Rightarrow> track list \<Rightarrow> track list" where
  "stopTrack i ts = (if i < length ts then ts[i := (ts ! i)\<lparr>readyState := Ended\<rparr>] else ts)"

definition stopTracks :: "nat list \<Rightarrow> track list \<Rightarrow> track list" where
  "stopTracks ids ts = fold stopTrack ids ts"

definition isKind :: "track_kind \<Rightarrow> track list \<Rightarrow> nat \<Rightarrow> bool" where
  "isKind k ts i \<longleftrightarrow> i < length ts \<and> kind (ts ! i) = k"

definition getAudioTracks :: "nat list \<Rightarrow> track list \<Rightarrow> nat list" where
  "getAudioTracks stream ts = filter (isKind Audio ts) stream"

definition getVideoTracks :: "nat list \<Rightarrow> track list \<Rightarrow> nat list" where
  "getVideoTracks stream ts = filter (isKind Video ts) stream"

text \<open>A stream handed over by the platform: fresh live tracks of the given kinds.\<close>

definition newStream :: "track_kind list \<Rightarrow> track list \<Rightarrow> nat list \<times> track list" where
  "newStream ks ts =
     ([length ts ..< length ts + length ks],
      ts @ map (\<lambda>k. \<lparr>kind = k, readyState = Live, onended = None\<rparr>) ks)"

text \<open>
  \<^verbatim>\<open>ref.current && ref.current.state !== 'inactive'\<close>, and \<^verbatim>\<open>MediaRecorder.stop()\<close>: the
  recorder is inactive at once, its last \<^verbatim>\<open>dataavailable\<close> and its \<^verbatim>\<open>stop\<close> event are
  delivered by a later task.
\<close>

definition notInactive :: "recorder list \<Rightarrow> nat \<Rightarrow> bool" where
  "notInactive rs r \<longleftrightarrow> r < length rs \<and> rec_state (rs ! r) \<noteq> Inactive"

definition hasState :: "recorder list \<Rightarrow> nat \<Rightarrow> recording_state \<Rightarrow> bool" where
  "hasState rs r st \<longleftrightarrow> r < length rs \<and> rec_state (rs ! r) = st"

definition stopRecorder :: "nat \<Rightarrow> recorder list \<Rightarrow> recorder list" where
  "stopRecorder r rs =
     (if r < length rs then rs[r := (rs ! r)\<lparr>rec_state := Inactive, stopQueued := True\<rparr>] else rs)"

definition setRecorderState :: "nat \<Rightarrow> recording_state \<Rightarrow> recorder list \<Rightarrow> recorder list" where
  "setRecorderState r st rs = (if r < length rs then rs[r := (rs ! r)\<lparr>rec_state := st\<rparr>] else rs)"

definition clearInterval :: "nat \<Rightarrow> interval list \<Rightarrow> interval list" where
  "clearInterval t is = (if t < length is then is[t := (is ! t)\<lparr>cleared := True\<rparr>] else is)"

definition closeContext :: "nat \<Rightarrow> context_state list \<Rightarrow> context_state list" where
  "closeContext c cs = (if c < length cs then cs[c := Closed] else cs)"

subsection \<open>cleanup\<close>

text \<open>
  \<^verbatim>\<open>cleanup\<close> is a sequence of guarded statements; each is a function here, in the order
  of the source.  Two of them occur in other handlers as well.
\<close>

definition cancelFrame :: "component \<Rightarrow> component" where
  "cancelFrame s =
     (case animationFrameRef s of
        None \<Rightarrow> s
      | Some f \<Rightarrow> s\<lparr>frames := removeAll f (frames s)\<rparr>)"

text \<open>Also the first statement of \<^verbatim>\<open>stopServerTranscription\<close>.\<close>

definition clearTimer :: "component \<Rightarrow> component" where
  "clearTimer s =
     (case transcriptionTimerRef s of
        None \<Rightarrow> s
      | Some t \<Rightarrow> s\<lparr>intervals := clearInterval t (intervals s), transcriptionTimerRef := None\<rparr>)"

definition dropTranscriber :: "component \<Rightarrow> component" where
  "dropTranscriber s =
     (case transcriptionRecorderRef s of
        None \<Rightarrow> s
      | Some r \<Rightarrow>
          if notInactive (recorders s) r
          then s\<lparr>recorders := stopRecorder r (recorders s), transcriptionRecorderRef := None\<rparr>
          else s)"

text \<open>Also the second statement of \<^verbatim>\<open>stopCapture\<close>.\<close>

definition stopMediaRecorder :: "component \<Rightarrow> component" where
  "stopMediaRecorder s =
     (case mediaRecorderRef s of
        None \<Rightarrow> s
      | Some r \<Rightarrow>
          if notInactive (recorders s) r
          then s\<lparr>recorders := stopRecorder r (recorders s)\<rparr>
          else s)"

definition releaseSystem :: "component \<Rightarrow> component" where
  "releaseSystem s =
     (case systemStreamRef s of
        None \<Rightarrow> s
      | Some st \<Rightarrow> s\<lparr>tracks := stopTracks st (tracks s), systemStreamRef := None\<rparr>)"

definition releaseMic :: "component \<Rightarrow> component" where
  "releaseMic s =
     (case micStreamRef s of
        None \<Rightarrow> s
      | Some st \<Rightarrow> s\<lparr>tracks := stopTracks st (tracks s), micStreamRef := None\<rparr>)"

definition releaseCombined :: "component \<Rightarrow> component" where
  "releaseCombined s =
     (case combinedStreamRef s of
        None \<Rightarrow> s
      | Some st \<Rightarrow> s\<lparr>tracks := stopTracks st (tracks s), combinedStreamRef := None\<rparr>)"

definition closeAudioContext :: "component \<Rightarrow> component" where
  "closeAudioContext s =
     (case audioContextRef s of
        None \<Rightarrow> s
      | Some c \<Rightarrow>
          if c < length (contexts s) \<and> contexts s ! c \<noteq> Closed
          then s\<lparr>contexts := closeContext c (contexts s), audioContextRef := None\<rparr>
          else s)"

definition cleanup :: "component \<Rightarrow> component" where
  "cleanup s =
     closeAudioContext (releaseCombined (releaseMic (releaseSystem (stopMediaRecorder
       ((dropTranscriber (clearTimer (cancelFrame s)))\<lparr>transcriptionChunksRef := []\<rparr>)))))"

subsection \<open>Stream acquisition and mixing\<close>

definition noAudioError :: js_error where
  \<open>noAudioError = JsError ''Error''
     ''No audio captured. When selecting a screen/tab, make sure to check "Share audio" or "Share tab audio" at the bottom of the dialog.''\<close>

definition cancelledError :: js_error where
  "cancelledError = JsError ''Error''
     ''Screen sharing was cancelled. Please try again and select a screen/tab with audio.''"

text \<open>The \<^verbatim>\<open>catch\<close> of \<^verbatim>\<open>captureSystemAudio\<close>; the no-audio error passes through it too.\<close>

definition captureSystemAudio_catch :: "js_error \<Rightarrow> js_error" where
  "captureSystemAudio_catch err =
     (if err_name err = ''NotAllowedError'' then cancelledError else err)"

definition captureSystemAudio ::
  "media_answer \<Rightarrow> component \<Rightarrow> (js_error \<times> component) + (nat list \<times> component)" where
  "captureSystemAudio dialog s =
     (case dialog of
        Rejected err \<Rightarrow> Inl (captureSystemAudio_catch err, s)
      | Granted ks \<Rightarrow>
          (let (displayStream, ts) = newStream ks (tracks s);
               audioTracks = getAudioTracks displayStream ts
           in if length audioTracks = 0
              then Inl (captureSystemAudio_catch noAudioError,
                        s\<lparr>tracks := stopTracks displayStream ts\<rparr>)
              else Inr (audioTracks,
                        s\<lparr>tracks := stopTracks (getVideoTracks displayStream ts) ts\<rparr>)))"

definition captureMicAudio ::
  "media_answer \<Rightarrow> component \<Rightarrow> (js_error \<times> component) + (nat list \<times> component)" where
  "captureMicAudio prompt s =
     (case prompt of
        Rejected err \<Rightarrow> Inl (err, s)
      | Granted ks \<Rightarrow>
          (let (micStream, ts) = newStream ks (tracks s) in Inr (micStream, s\<lparr>tracks := ts\<rparr>)))"

text \<open>
  \<^verbatim>\<open>combineStreams\<close>: a new audio context, stored in \<^verbatim>\<open>audioContextRef\<close>, and the stream
  of its destination node, which has one audio track.
\<close>

definition combineStreams :: "component \<Rightarrow> nat list \<times> component" where
  "combineStreams s =
     (let (dest, ts) = newStream [Audio] (tracks s)
      in (dest, s\<lparr>tracks := ts, contexts := contexts s @ [Running],
                  audioContextRef := Some (length (contexts s))\<rparr>))"

subsection \<open>Level monitor\<close>

definition fftSize :: nat where
  "fftSize = 256"

definition frequencyBinCount :: nat where
  "frequencyBinCount = fftSize div 2"

text \<open>
  \<^verbatim>\<open>updateLevel\<close>, given the bytes the analyser delivers.  \<^verbatim>\<open>requestAnimationFrame\<close>
  returns a fresh positive handle and queues the callback.
\<close>

definition updateLevel :: "nat list \<Rightarrow> component \<Rightarrow> component" where
  "updateLevel dataArray s =
     (if analyserRef s = None \<or> \<not> isCapturingRef s then s
      else
        (let average = of_nat (sum_list dataArray) / of_nat frequencyBinCount;
             f = Suc (frameSerial s)
         in s\<lparr>audioLevel := min 100 ((average / 128) * 100),
              frameSerial := f, frames := frames s @ [f], animationFrameRef := Some f\<rparr>))"

text \<open>
  \<^verbatim>\<open>setupAudioVisualization\<close>; \<^verbatim>\<open>ok\<close> is false when the platform raises while the analyser is
  wired up, which the \<^verbatim>\<open>try\<close> catches and logs.
\<close>

definition setupAudioVisualization :: "bool \<Rightarrow> nat list \<Rightarrow> component \<Rightarrow> component" where
  "setupAudioVisualization ok dataArray s =
     (let (ctx, s1) = (case audioContextRef s of
                         Some c \<Rightarrow> (c, s)
                       | None \<Rightarrow> (length (contexts s),
                                   s\<lparr>contexts := contexts s @ [Running],
                                     audioContextRef := Some (length (contexts s))\<rparr>))
      in if \<not> ok then s1
         else updateLevel dataArray (s1\<lparr>analyserRef := Some ctx\<rparr>))"

subsection \<open>Server-side transcription: the cycling recorder and the uploader\<close>

text \<open>
  \<^verbatim>\<open>sendBlobForTranscription\<close> in three parts: up to the \<^verbatim>\<open>await\<close> on the file reader, from
  there to the \<^verbatim>\<open>await\<close> on the request, and from the answer to the end.
\<close>

definition sendBlobForTranscription :: "render \<Rightarrow> nat \<Rightarrow> component \<Rightarrow> component" where
  "sendBlobForTranscription env blobSize s =
     (if \<not> truthy (meetingIdRef s) \<or> \<not> isCapturingRef s then s
      else if blobSize < 1000 then s
      else s\<lparr>isTranscribingRef := True,
             uploads := uploads s @ [\<lparr>up_env = env, up_size = blobSize, up_phase = Reading\<rparr>]\<rparr>)"

definition setUploadPhase :: "nat \<Rightarrow> upload_phase \<Rightarrow> upload list \<Rightarrow> upload list" where
  "setUploadPhase k ph us = (if k < length us then us[k := (us ! k)\<lparr>up_phase := ph\<rparr>] else us)"

definition sendBlobForTranscription_read :: "nat \<Rightarrow> bool \<Rightarrow> component \<Rightarrow> component" where
  "sendBlobForTranscription_read k ok s =
     (if k < length (uploads s) \<and> up_phase (uploads s ! k) = Reading then
        (let u = uploads s ! k in
         if ok
         then s\<lparr>requests := requests s @
                    [PostTranscribeAudio (up_size u) (c_selectedLanguage (up_env u))
                       (meetingIdRef s) (c_currentSpeaker (up_env u))],
                 uploads := setUploadPhase k Requested (uploads s)\<rparr>
         else s\<lparr>isTranscribingRef := False,
                 uploads := setUploadPhase k UploadDone (uploads s)\<rparr>)
      else s)"

text \<open>
  The body of the \<^verbatim>\<open>try\<close> from the answer on: \<^verbatim>\<open>response.ok\<close>, then
  \<^verbatim>\<open>response.json()\<close>, then \<^verbatim>\<open>data.text && data.text.trim()\<close>.  The result is the
  exception raised (\<open>Inl\<close>), or the entry to append, if any.  A missing text is \<open>None\<close>.
\<close>

definition transcribed ::
  "render \<Rightarrow> int \<Rightarrow> jsstring \<Rightarrow> jsstring option response \<Rightarrow> js_error + entry option" where
  "transcribed env now label answer =
     (case answer of
        NetworkError err \<Rightarrow> Inl err
      | Response ok body \<Rightarrow>
          if ok then
            (case body of
               Unparsable \<Rightarrow> Inl (JsError ''SyntaxError'' ''Unexpected token'')
             | Parsed None \<Rightarrow> Inr None
             | Parsed (Some t) \<Rightarrow>
                 if t \<noteq> [] \<and> trim t \<noteq> []
                 then Inr (Some \<lparr>e_id = now, e_speaker = c_currentSpeaker env, e_text = trim t,
                                 e_timestamp = label, e_confidence = 85 / 100\<rparr>)
                 else Inr None)
          else Inr None)"

text \<open>The \<^verbatim>\<open>catch\<close> logs the exception; the \<^verbatim>\<open>finally\<close> clears the flag.\<close>

definition sendBlobForTranscription_response ::
  "nat \<Rightarrow> int \<Rightarrow> jsstring \<Rightarrow> jsstring option response \<Rightarrow> component \<Rightarrow> component" where
  "sendBlobForTranscription_response k now label answer s =
     (if k < length (uploads s) \<and> up_phase (uploads s ! k) = Requested then
        (let s1 = (case transcribed (up_env (uploads s ! k)) now label answer of
                     Inl err \<Rightarrow> s
                   | Inr None \<Rightarrow> s
                   | Inr (Some e) \<Rightarrow> s\<lparr>liveTranscript := liveTranscript s @ [e]\<rparr>)
         in s1\<lparr>isTranscribingRef := False,
                uploads := setUploadPhase k UploadDone (uploads s1)\<rparr>)
      else s)"

text \<open>
  \<^verbatim>\<open>startTranscriptionRecorder\<close>; \<^verbatim>\<open>ok\<close> is false when \<^verbatim>\<open>new MediaRecorder\<close> or
  \<^verbatim>\<open>recorder.start\<close> raises, which the \<^verbatim>\<open>try\<close> catches and logs.
\<close>

definition startTranscriptionRecorder :: "render \<Rightarrow> bool \<Rightarrow> component \<Rightarrow> component" where
  "startTranscriptionRecorder env ok s =
     (case activeStreamRef s of
        None \<Rightarrow> s
      | Some stream \<Rightarrow>
          if length (getAudioTracks stream (tracks s)) = 0 then s
          else if \<not> ok then s
          else s\<lparr>recorders := recorders s @
                    [\<lparr>rec_state = Recording, timeslice = 1000, chunks = [], role = Cycle env,
                      stopQueued = False\<rparr>],
                 transcriptionRecorderRef := Some (length (recorders s))\<rparr>)"

text \<open>
  \<^verbatim>\<open>if (ref.current && ref.current.state !== 'inactive') { try { ref.current.stop(); } ... }\<close>
  on the transcription recorder, as in \<^verbatim>\<open>cycleTranscriptionRecorder\<close> and
  \<^verbatim>\<open>stopServerTranscription\<close>.
\<close>

definition stopTranscriber :: "component \<Rightarrow> component" where
  "stopTranscriber s =
     (case transcriptionRecorderRef s of
        None \<Rightarrow> s
      | Some r \<Rightarrow>
          if notInactive (recorders s) r
          then s\<lparr>recorders := stopRecorder r (recorders s)\<rparr>
          else s)"

definition cycleTranscriptionRecorder :: "render \<Rightarrow> bool \<Rightarrow> component \<Rightarrow> component" where
  "cycleTranscriptionRecorder env ok s =
     (let s1 = stopTranscriber s
      in if isCapturingRef s1 then startTranscriptionRecorder env ok s1 else s1)"

text \<open>\<^verbatim>\<open>transcriptionTimerRef.current = setInterval(() => cycleTranscriptionRecorder(), 10000)\<close>\<close>

definition scheduleCycle :: "render \<Rightarrow> component \<Rightarrow> component" where
  "scheduleCycle env s =
     s\<lparr>intervals := intervals s @ [\<lparr>period = 10000, cleared = False, tick_env = env\<rparr>],
       transcriptionTimerRef := Some (length (intervals s))\<rparr>"

definition startServerTranscription :: "render \<Rightarrow> bool \<Rightarrow> component \<Rightarrow> component" where
  "startServerTranscription env ok s =
     scheduleCycle env (startTranscriptionRecorder env ok (s\<lparr>isTranscribingRef := False\<rparr>))"

definition stopServerTranscription :: "component \<Rightarrow> component" where
  "stopServerTranscription s =
     (stopTranscriber (clearTimer s))\<lparr>transcriptionRecorderRef := None\<rparr>"

subsection \<open>startCapture\<close>

text \<open>What the platform and the backend answer during one start sequence.\<close>

record start_answers =
  display :: media_answer
  microphone :: media_answer
  analyserOk :: bool
  levelData :: "nat list"
  today :: jsstring
  backend :: "nat option response"
  fullRecorderOk :: bool
  cycleRecorderOk :: bool

text \<open>
  The acquisition part of \<^verbatim>\<open>startCapture\<close>.  The result is the error thrown, or the value of
  \<^verbatim>\<open>activeStream\<close>, \<^verbatim>\<open>null\<close> being \<open>None\<close>.
\<close>

definition acquireStreams ::
  "render \<Rightarrow> start_answers \<Rightarrow> component
     \<Rightarrow> (js_error \<times> component) + (nat list option \<times> component)" where
  "acquireStreams env ans s =
     (if c_captureSource env = System \<or> c_captureSource env = MicSystem then
        (case captureSystemAudio (display ans) s of
           Inl x \<Rightarrow> Inl x
         | Inr (sysStream, s1) \<Rightarrow>
             (let s2 = s1\<lparr>systemStreamRef := Some sysStream\<rparr> in
              if c_captureSource env = MicSystem then
                (case captureMicAudio (microphone ans) s2 of
                   Inl x \<Rightarrow> Inl x
                 | Inr (micStream, s3) \<Rightarrow>
                     (let s4 = s3\<lparr>micStreamRef := Some micStream\<rparr>;
                          (activeStream, s5) = combineStreams s4
                      in Inr (Some activeStream, s5\<lparr>combinedStreamRef := Some activeStream\<rparr>)))
              else Inr (Some sysStream, s2)))
      else if c_captureSource env = Tab then
        (case captureSystemAudio (display ans) s of
           Inl x \<Rightarrow> Inl x
         | Inr (sysStream, s1) \<Rightarrow> Inr (Some sysStream, s1\<lparr>systemStreamRef := Some sysStream\<rparr>))
      else Inr (None, s))"

definition noStreamError :: js_error where
  "noStreamError = JsError ''Error''
     ''No audio stream available. Please ensure you selected a source with audio.''"

definition startFailedError :: js_error where
  "startFailedError = JsError ''Error'' ''Failed to start recording session''"

text \<open>The \<^verbatim>\<open>catch\<close> of \<^verbatim>\<open>startCapture\<close>.\<close>

definition startCapture_catch :: "js_error \<Rightarrow> component \<Rightarrow> component" where
  "startCapture_catch err s =
     cleanup (s\<lparr>error := (if err_message err \<noteq> [] then str (err_message err)
                           else str ''Failed to capture audio. Please try again.''),
               status := Idle\<rparr>)"

definition setOnended :: "render \<Rightarrow> nat \<Rightarrow> track list \<Rightarrow> track list" where
  "setOnended env i ts = (if i < length ts then ts[i := (ts ! i)\<lparr>onended := Some env\<rparr>] else ts)"

text \<open>\<^verbatim>\<open>activeStream.getAudioTracks().forEach(track => { track.onended = ... })\<close>\<close>

definition watchTracks :: "render \<Rightarrow> nat list \<Rightarrow> component \<Rightarrow> component" where
  "watchTracks env activeStream s =
     s\<lparr>tracks := fold (setOnended env) (getAudioTracks activeStream (tracks s)) (tracks s)\<rparr>"

text \<open>\<^verbatim>\<open>meetingTitle || `Captured Meeting ${new Date().toLocaleDateString()}`\<close>\<close>

definition titleOrDefault :: "jsstring \<Rightarrow> jsstring \<Rightarrow> jsstring" where
  "titleOrDefault title date = (if title \<noteq> [] then title else str ''Captured Meeting '' @ date)"

definition postRecordingStart :: "render \<Rightarrow> jsstring \<Rightarrow> component \<Rightarrow> component" where
  "postRecordingStart env date s =
     s\<lparr>requests := requests s @
          [PostRecordingStart (titleOrDefault (c_meetingTitle env) date) (c_selectedLanguage env)]\<rparr>"

text \<open>
  The recorder of the whole session; \<^verbatim>\<open>ok\<close> is false when the platform raises, which the
  \<^verbatim>\<open>try\<close> catches and logs.
\<close>

definition recordSession :: "bool \<Rightarrow> component \<Rightarrow> component" where
  "recordSession ok s =
     (if ok
      then s\<lparr>recorders := recorders s @
                [\<lparr>rec_state = Recording, timeslice = 1000, chunks = [], role = FullSession,
                  stopQueued = False\<rparr>],
              mediaRecorderRef := Some (length (recorders s))\<rparr>
      else s)"

text \<open>\<^verbatim>\<open>startCapture\<close> from the parsed answer of \<^verbatim>\<open>/recording/start\<close> to its end.\<close>

definition beginCapture ::
  "render \<Rightarrow> start_answers \<Rightarrow> nat list \<Rightarrow> nat option \<Rightarrow> component \<Rightarrow> component" where
  "beginCapture env ans activeStream meeting_id s =
     (startServerTranscription env (cycleRecorderOk ans)
        ((recordSession (fullRecorderOk ans)
            (s\<lparr>meetingId := meeting_id, meetingIdRef := meeting_id,
               activeStreamRef := Some activeStream\<rparr>))
         \<lparr>isCapturing := True, isCapturingRef := True\<rparr>))
     \<lparr>isPaused := False, recordingTime := 0, liveTranscript := [], status := Capturing\<rparr>"

text \<open>\<^verbatim>\<open>startCapture\<close> from the check of the active stream to the answer of the backend.\<close>

definition openSession ::
  "render \<Rightarrow> start_answers \<Rightarrow> nat list \<Rightarrow> component \<Rightarrow> component" where
  "openSession env ans activeStream s =
     (if length (getAudioTracks activeStream (tracks s)) = 0
      then startCapture_catch noStreamError s
      else
        (let s5 = postRecordingStart env (today ans)
                    (setupAudioVisualization (analyserOk ans) (levelData ans)
                       (watchTracks env activeStream s))
         in case backend ans of
              NetworkError err \<Rightarrow> startCapture_catch err s5
            | Response ok body \<Rightarrow>
                if \<not> ok then startCapture_catch startFailedError s5
                else
                  (case body of
                     Unparsable \<Rightarrow>
                       startCapture_catch (JsError ''SyntaxError'' ''Unexpected token'') s5
                   | Parsed meeting_id \<Rightarrow> beginCapture env ans activeStream meeting_id s5)))"

definition startCapture :: "render \<Rightarrow> start_answers \<Rightarrow> component \<Rightarrow> component" where
  "startCapture env ans s =
     (case acquireStreams env ans (s\<lparr>error := [], status := Requesting\<rparr>) of
        Inl (err, s2) \<Rightarrow> startCapture_catch err s2
      | Inr (None, s2) \<Rightarrow> startCapture_catch noStreamError s2
      | Inr (Some activeStream, s2) \<Rightarrow> openSession env ans activeStream s2)"

subsection \<open>togglePause\<close>

definition resumeMediaRecorder :: "component \<Rightarrow> component" where
  "resumeMediaRecorder s =
     (case mediaRecorderRef s of
        None \<Rightarrow> s
      | Some r \<Rightarrow>
          if hasState (recorders s) r Paused
          then s\<lparr>recorders := setRecorderState r Recording (recorders s)\<rparr>
          else s)"

definition pauseMediaRecorder :: "component \<Rightarrow> component" where
  "pauseMediaRecorder s =
     (case mediaRecorderRef s of
        None \<Rightarrow> s
      | Some r \<Rightarrow>
          if hasState (recorders s) r Recording
          then s\<lparr>recorders := setRecorderState r Paused (recorders s)\<rparr>
          else s)"

definition togglePause :: "render \<Rightarrow> bool \<Rightarrow> component \<Rightarrow> component" where
  "togglePause env ok s =
     (if c_isPaused env
      then (startServerTranscription env ok (resumeMediaRecorder s))\<lparr>isPaused := False\<rparr>
      else (stopServerTranscription (pauseMediaRecorder s))\<lparr>isPaused := True\<rparr>)"

subsection \<open>stopCapture\<close>

text \<open>
  \<^verbatim>\<open>liveTranscript.map(entry => `${entry.speaker} (${entry.timestamp}): ${entry.text}`)
  .join('\n\n')\<close>
\<close>

definition entryLine :: "entry \<Rightarrow> jsstring" where
  "entryLine e = e_speaker e @ str '' ('' @ e_timestamp e @ str ''): '' @ e_text e"

definition fullTranscript :: "entry list \<Rightarrow> jsstring" where
  "fullTranscript es = join [0xA, 0xA] (map entryLine es)"

text \<open>The state reset at the end of the \<^verbatim>\<open>try\<close> block, and the \<^verbatim>\<open>catch\<close>.\<close>

definition resetState :: "component \<Rightarrow> component" where
  "resetState s =
     s\<lparr>isCapturing := False, isCapturingRef := False, isPaused := False, recordingTime := 0,
       audioLevel := 0, meetingId := None, meetingIdRef := None, status := Idle\<rparr>"

definition stopCapture_catch :: "component \<Rightarrow> component" where
  "stopCapture_catch s =
     s\<lparr>error := str ''Failed to save recording. Please try again.'', status := Idle\<rparr>"

text \<open>
  \<^verbatim>\<open>stopCapture\<close> up to its first \<^verbatim>\<open>await\<close> on the backend.  The \<^verbatim>\<open>await\<close> on
  \<^verbatim>\<open>stopServerTranscription()\<close>, which awaits nothing itself, is resumed by a microtask,
  before any other event.  With a falsy \<^verbatim>\<open>meetingId\<close> (\<^verbatim>\<open>null\<close> or 0) the function
  runs to its end.
\<close>

definition postTranscription :: "render \<Rightarrow> nat \<Rightarrow> component \<Rightarrow> component" where
  "postTranscription env m s =
     s\<lparr>requests := requests s @
          [PostTranscription m (fullTranscript (c_liveTranscript env))
             (c_currentSpeaker env, length (c_liveTranscript env)) (c_selectedLanguage env)],
       stops := stops s @ [\<lparr>sc_env = env, sc_meeting = m, sc_phase = AwaitTranscript\<rparr>]\<rparr>"

definition stopCapture :: "render \<Rightarrow> component \<Rightarrow> component" where
  "stopCapture env s =
     (let s4 = cleanup (stopMediaRecorder (stopServerTranscription (s\<lparr>status := Stopping\<rparr>)))
      in case c_meetingId env of
           None \<Rightarrow> resetState s4
         | Some m \<Rightarrow> if m \<noteq> 0 then postTranscription env m s4 else resetState s4)"

definition setStopPhase :: "nat \<Rightarrow> stop_phase \<Rightarrow> stop_call list \<Rightarrow> stop_call list" where
  "setStopPhase k ph cs = (if k < length cs then cs[k := (cs ! k)\<lparr>sc_phase := ph\<rparr>] else cs)"

text \<open>
  \<^verbatim>\<open>stopCapture\<close> resumed by the answer to the request it waits for.  The answer's
  \<^verbatim>\<open>ok\<close> flag and body are not read.
\<close>

definition stopCapture_resume ::
  "nat \<Rightarrow> jsstring \<Rightarrow> unit response \<Rightarrow> component \<Rightarrow> component" where
  "stopCapture_resume k date answer s =
     (if k < length (stops s) \<and> sc_phase (stops s ! k) \<noteq> StopDone then
        (let c = stops s ! k; env = sc_env c; m = sc_meeting c in
         case answer of
           NetworkError err \<Rightarrow> stopCapture_catch (s\<lparr>stops := setStopPhase k StopDone (stops s)\<rparr>)
         | Response ok body \<Rightarrow>
             if sc_phase c = AwaitTranscript then
               s\<lparr>requests := requests s @
                    [PutMeeting m (titleOrDefault (c_meetingTitle env) date)
                       (c_meetingDescription env) (c_selectedFolder env)],
                 stops := setStopPhase k AwaitMeeting (stops s)\<rparr>
             else if sc_phase c = AwaitMeeting then
               s\<lparr>requests := requests s @ [PostRecordingStop m],
                 stops := setStopPhase k AwaitFinalize (stops s)\<rparr>
             else
               resetState (s\<lparr>meetingsCreated := meetingsCreated s @ [m],
                             stops := setStopPhase k StopDone (stops s)\<rparr>))
      else s)"

subsection \<open>Platform callbacks\<close>

text \<open>
  A live track ended by the platform: the track is \<^verbatim>\<open>ended\<close>, then its \<^verbatim>\<open>onended\<close> handler
  runs.  The handler calls the \<^verbatim>\<open>stopCapture\<close> of the render in which \<^verbatim>\<open>startCapture\<close> was
  called.  A track that has ended, also by \<^verbatim>\<open>stop()\<close>, fires no event.
\<close>

definition trackEnded :: "nat \<Rightarrow> component \<Rightarrow> component" where
  "trackEnded i s =
     (if i < length (tracks s) \<and> readyState (tracks s ! i) = Live then
        (let s1 = s\<lparr>tracks := stopTrack i (tracks s)\<rparr> in
         case onended (tracks s ! i) of
           None \<Rightarrow> s1
         | Some env \<Rightarrow> if isCapturingRef s1 then stopCapture env s1 else s1)
      else s)"

definition pushChunk :: "nat \<Rightarrow> nat \<Rightarrow> recorder list \<Rightarrow> recorder list" where
  "pushChunk r n rs = (if r < length rs then rs[r := (rs ! r)\<lparr>chunks := chunks (rs ! r) @ [n]\<rparr>] else rs)"

text \<open>\<^verbatim>\<open>recorder.ondataavailable\<close> of a recording recorder, with the size of the data.\<close>

definition dataAvailable :: "nat \<Rightarrow> nat \<Rightarrow> component \<Rightarrow> component" where
  "dataAvailable r n s =
     (if hasState (recorders s) r Recording
      then (if n > 0 then s\<lparr>recorders := pushChunk r n (recorders s)\<rparr> else s)
      else s)"

text \<open>
  The task queued by \<^verbatim>\<open>MediaRecorder.stop()\<close>: the last \<^verbatim>\<open>dataavailable\<close>, then
  \<^verbatim>\<open>recorder.onstop\<close>.  The size of a blob is the sum of the sizes of its parts.
\<close>

definition recorderStopped :: "nat \<Rightarrow> nat \<Rightarrow> component \<Rightarrow> component" where
  "recorderStopped r n s =
     (if r < length (recorders s) \<and> stopQueued (recorders s ! r) then
        (let rs1 = (if n > 0 then pushChunk r n (recorders s) else recorders s);
             rs2 = rs1[r := (rs1 ! r)\<lparr>stopQueued := False\<rparr>];
             s1 = s\<lparr>recorders := rs2\<rparr>;
             cs = chunks (rs2 ! r)
         in case role (rs2 ! r) of
              FullSession \<Rightarrow> s1\<lparr>audioChunks := cs\<rparr>
            | Cycle env \<Rightarrow>
                if length cs > 0 then sendBlobForTranscription env (sum_list cs) s1 else s1)
      else s)"

subsection \<open>The event loop\<close>

text \<open>
  The condition of the \<^verbatim>\<open>disabled\<close> attribute of the Start Capture button.  The button is
  rendered when \<^verbatim>\<open>!isCapturing\<close>, the Pause and Stop buttons when \<^verbatim>\<open>isCapturing\<close>; the form
  with the title is rendered when \<^verbatim>\<open>!isCapturing\<close>.  A disabled button dispatches no click.
\<close>

definition startDisabled :: "component \<Rightarrow> bool" where
  "startDisabled s \<longleftrightarrow> trim (meetingTitle s) = [] \<or> status s = Requesting"

definition stopDisabled :: "component \<Rightarrow> bool" where
  "stopDisabled s \<longleftrightarrow> status s = Stopping"

datatype event =
    EditTitle jsstring
  | SelectSource capture_source
  | ClickStart start_answers
  | ClickPause bool
  | ClickStop
  | TrackEnds nat
  | TimerFires nat bool
  | DataAvailable nat nat
  | RecorderStops nat nat
  | BlobRead nat bool
  | TranscribeAnswers nat int jsstring "jsstring option response"
  | BackendAnswers nat jsstring "unit response"
  | AnimationFrame nat "nat list"

fun step :: "event \<Rightarrow> component \<Rightarrow> component" where
  "step (EditTitle t) s = (if \<not> isCapturing s then s\<lparr>meetingTitle := t\<rparr> else s)"
| "step (SelectSource c) s = (if \<not> isCapturing s then s\<lparr>captureSource := c\<rparr> else s)"
| "step (ClickStart ans) s =
     (if \<not> isCapturing s \<and> \<not> startDisabled s then startCapture (render_of s) ans s else s)"
| "step (ClickPause ok) s = (if isCapturing s then togglePause (render_of s) ok s else s)"
| "step ClickStop s =
     (if isCapturing s \<and> \<not> stopDisabled s then stopCapture (render_of s) s else s)"
| "step (TrackEnds i) s = trackEnded i s"
| "step (TimerFires t ok) s =
     (if t < length (intervals s) \<and> \<not> cleared (intervals s ! t)
      then cycleTranscriptionRecorder (tick_env (intervals s ! t)) ok s else s)"
| "step (DataAvailable r n) s = dataAvailable r n s"
| "step (RecorderStops r n) s = recorderStopped r n s"
| "step (BlobRead k ok) s = sendBlobForTranscription_read k ok s"
| "step (TranscribeAnswers k now label answer) s =
     sendBlobForTranscription_response k now label answer s"
| "step (BackendAnswers k date answer) s = stopCapture_resume k date answer s"
| "step (AnimationFrame f dataArray) s =
     (if f \<in> set (frames s) then updateLevel dataArray (s\<lparr>frames := removeAll f (frames s)\<rparr>)
      else s)"

text \<open>A run of the event loop, first event first.\<close>

definition run :: "event list \<Rightarrow> component \<Rightarrow> component" where
  "run es s = fold step es s"

subsection \<open>Notions for the cycling recorder\<close>

text \<open>
  The conditions under which \<^verbatim>\<open>startTranscriptionRecorder\<close> gets a recorder going (the
  active stream has an audio track and the platform does not raise), and the recorder it
  then creates.
\<close>

definition canEncode :: "bool \<Rightarrow> component \<Rightarrow> bool" where
  "canEncode ok s \<longleftrightarrow>
     ok \<and> (\<exists>stream. activeStreamRef s = Some stream \<and> getAudioTracks stream (tracks s) \<noteq> [])"

definition freshEncoder :: "render \<Rightarrow> recorder" where
  "freshEncoder env =
     \<lparr>rec_state = Recording, timeslice = 1000, chunks = [], role = Cycle env, stopQueued = False\<rparr>"

subsection \<open>Observations on a run\<close>

text \<open>The transcript documents sent to \<^verbatim>\<open>POST /transcription/{meetingId}\<close> so far.\<close>

fun transcriptPosted :: "request \<Rightarrow> (nat \<times> jsstring) list" where
  "transcriptPosted (PostTranscription m doc speakers language) = [(m, doc)]"
| "transcriptPosted r = []"

definition persisted :: "component \<Rightarrow> (nat \<times> jsstring) list" where
  "persisted s = concat (map transcriptPosted (requests s))"

text \<open>The titles sent to \<^verbatim>\<open>POST /recording/start\<close> so far.\<close>

fun startPosted :: "request \<Rightarrow> jsstring list" where
  "startPosted (PostRecordingStart title language) = [title]"
| "startPosted r = []"

definition sessionTitles :: "component \<Rightarrow> jsstring list" where
  "sessionTitles s = concat (map startPosted (requests s))"

text \<open>
  The level monitor has not sampled and has no callback pending: no animation frame is
  requested, the published level is still 0, and the capturing flag agrees with the state
  \<^verbatim>\<open>isCapturing\<close>.
\<close>

definition neverSampled :: "component \<Rightarrow> bool" where
  "neverSampled s \<longleftrightarrow>
     frames s = [] \<and> audioLevel s = 0 \<and> isCapturingRef s = isCapturing s"

text \<open>The events that call \<^verbatim>\<open>stopCapture\<close>.\<close>

fun startsStop :: "event \<Rightarrow> bool" where
  "startsStop ClickStop = True"
| "startsStop (TrackEnds i) = True"
| "startsStop e = False"

text \<open>The value of \<^verbatim>\<open>Date.now()\<close> an event reads.\<close>

fun clockReading :: "event \<Rightarrow> int list" where
  "clockReading (TranscribeAnswers k now label answer) = [now]"
| "clockReading e = []"

subsection \<open>Scenarios\<close>

text \<open>
  Answers of a start sequence in which everything is granted: the dialog shares one audio and
  one video track, the backend opens meeting 7.  In \<open>silent\<close> the dialog shares no audio; in
  \<open>unsupported\<close> the platform has no encoder for \<^verbatim>\<open>audio/webm;codecs=opus\<close>.
\<close>

definition granted :: start_answers where
  "granted = \<lparr>display = Granted [Audio, Video], microphone = Granted [Audio],
     analyserOk = True, levelData = replicate 128 0, today = str ''1/2/2026'',
     backend = Response True (Parsed (Some 7)), fullRecorderOk = True,
     cycleRecorderOk = True\<rparr>"

definition silent :: start_answers where
  "silent = granted\<lparr>display := Granted [Video]\<rparr>"

definition unsupported :: start_answers where
  "unsupported = granted\<lparr>fullRecorderOk := False, cycleRecorderOk := False\<rparr>"

text \<open>The mounted component after the title has been typed, and after a start.\<close>

definition titled :: component where
  "titled = step (EditTitle (str ''Standup'')) mounted"

definition capturing :: component where
  "capturing = step (ClickStart granted) titled"

text \<open>A component with one upload waiting for the backend's answer.\<close>

definition uploading :: component where
  "uploading = mounted\<lparr>uploads :=
     [\<lparr>up_env = render_of mounted, up_size = 2000, up_phase = Requested\<rparr>]\<rparr>"

text \<open>Answers of the backend.\<close>

definition saved :: "unit response" where
  "saved = Response True (Parsed ())"

definition serverError :: "unit response" where
  "serverError = Response False Unparsable"

definition heard :: "string \<Rightarrow> jsstring option response" where
  "heard t = Response True (Parsed (Some (str t)))"

text \<open>Runs of the capturing component, named after what happens in them.\<close>

definition metadataRejected :: component where
  "metadataRejected =
     run [ClickStop, BackendAnswers 0 (str ''1/2/2026'') saved,
          BackendAnswers 0 (str ''1/2/2026'') serverError,
          BackendAnswers 0 (str ''1/2/2026'') saved] capturing"

definition transcriptUnsent :: component where
  "transcriptUnsent =
     run [ClickStop, BackendAnswers 0 (str ''1/2/2026'')
            (NetworkError (JsError ''TypeError'' ''Failed to fetch''))] capturing"

definition sharingEnded :: component where
  "sharingEnded = step (TrackEnds 0) capturing"

text \<open>
  A session that is paused, stopped, and resumed while the stop sequence waits for the
  backend; \<open>ok\<close> tells whether the platform lets the resume start a recorder on the stopped
  stream.
\<close>

definition resumedWhileStopping :: "bool \<Rightarrow> component" where
  "resumedWhileStopping ok =
     run [ClickPause True, ClickStop, ClickPause ok,
          BackendAnswers 0 (str ''1/2/2026'') saved,
          BackendAnswers 0 (str ''1/2/2026'') saved,
          BackendAnswers 0 (str ''1/2/2026'') saved] capturing"

definition encoderless :: component where
  "encoderless = step (ClickStart unsupported) titled"

text \<open>A run that starts a session and pauses it.\<close>

definition pausing :: "event list" where
  "pausing = [EditTitle (str ''Standup''), ClickStart granted, ClickPause True]"

text \<open>
  Two cycles of a session, each with two seconds of audio, whose uploads are answered at the
  clock readings \<open>t1\<close> and \<open>t2\<close>.
\<close>

definition twoSegments :: "int \<Rightarrow> int \<Rightarrow> event list" where
  "twoSegments t1 t2 =
     [DataAvailable 1 2000, TimerFires 0 True, RecorderStops 1 0, BlobRead 0 True,
      DataAvailable 2 2000, TimerFires 0 True, RecorderStops 2 0, BlobRead 1 True,
      TranscribeAnswers 0 t1 (str ''10:00:10'') (heard ''hello''),
      TranscribeAnswers 1 t2 (str ''10:00:20'') (heard ''world'')]"

definition sameMillisecond :: component where
  "sameMillisecond = run (twoSegments 1700000000000 1700000000000) capturing"

text \<open>
  A session with two answered segments and two seconds of audio in its third cycle, and what
  follows a click on Stop: the recorder's stop event, the upload of the third segment and
  its answer, and the three answers of the backend to the stop sequence.
\<close>

definition heardTwice :: component where
  "heardTwice =
     run (twoSegments 1700000000000 1700000010000 @ [DataAvailable 3 2000]) capturing"

definition lateAnswer :: "event list" where
  "lateAnswer =
     [RecorderStops 3 0, BlobRead 2 True,
      TranscribeAnswers 2 1700000020000 (str ''10:00:30'') (heard ''late''),
      BackendAnswers 0 (str ''1/2/2026'') saved, BackendAnswers 0 (str ''1/2/2026'') saved,
      BackendAnswers 0 (str ''1/2/2026'') saved]"

section \<open>Properties\<close>

subsection \<open>Tracks and the statements of cleanup\<close>

lemma length_stopTrack [simp]: "length (stopTrack i ts) = length ts"
  by (simp add: stopTrack_def)

lemma length_stopTracks [simp]: "length (stopTracks ids ts) = length ts"
  unfolding stopTracks_def by (induction ids arbitrary: ts) simp_all

lemma ended_stopTrack:
  "i < length ts \<Longrightarrow> readyState (ts ! i) = Ended \<Longrightarrow> readyState (stopTrack j ts ! i) = Ended"
  by (simp add: stopTrack_def nth_list_update)

lemma ended_stopTracks:
  "i < length ts \<Longrightarrow> readyState (ts ! i) = Ended \<Longrightarrow> readyState (stopTracks ids ts ! i) = Ended"
  unfolding stopTracks_def
  by (induction ids arbitrary: ts) (simp_all add: ended_stopTrack)

lemma stopTracks_ends:
  "i \<in> set ids \<Longrightarrow> i < length ts \<Longrightarrow> readyState (stopTracks ids ts ! i) = Ended"
proof (induction ids arbitrary: ts)
  case Nil
  then show ?case by simp
next
  case (Cons j ids)
  show ?case
  proof (cases "i = j")
    case True
    with Cons.prems have "readyState (stopTrack j ts ! i) = Ended"
      by (simp add: stopTrack_def)
    then show ?thesis
      using Cons.prems ended_stopTracks [of i "stopTrack j ts" ids]
      by (simp add: stopTracks_def)
  next
    case False
    with Cons.prems Cons.IH [of "stopTrack j ts"] show ?thesis by (simp add: stopTracks_def)
  qed
qed

lemma cancelFrame_frame [simp]:
  "requests (cancelFrame s) = requests s"
  "status (cancelFrame s) = status s"
  "error (cancelFrame s) = error s"
  "isCapturingRef (cancelFrame s) = isCapturingRef s"
  "liveTranscript (cancelFrame s) = liveTranscript s"
  "uploads (cancelFrame s) = uploads s"
  "activeStreamRef (cancelFrame s) = activeStreamRef s"
  by (simp_all add: cancelFrame_def Let_def split: option.split prod.split)

lemma clearTimer_frame [simp]:
  "requests (clearTimer s) = requests s"
  "status (clearTimer s) = status s"
  "error (clearTimer s) = error s"
  "isCapturingRef (clearTimer s) = isCapturingRef s"
  "liveTranscript (clearTimer s) = liveTranscript s"
  "uploads (clearTimer s) = uploads s"
  "activeStreamRef (clearTimer s) = activeStreamRef s"
  by (simp_all add: clearTimer_def Let_def split: option.split prod.split)

lemma dropTranscriber_frame [simp]:
  "requests (dropTranscriber s) = requests s"
  "status (dropTranscriber s) = status s"
  "error (dropTranscriber s) = error s"
  "isCapturingRef (dropTranscriber s) = isCapturingRef s"
  "liveTranscript (dropTranscriber s) = liveTranscript s"
  "uploads (dropTranscriber s) = uploads s"
  "activeStreamRef (dropTranscriber s) = activeStreamRef s"
  by (simp_all add: dropTranscriber_def Let_def split: option.split prod.split)

lemma stopMediaRecorder_frame [simp]:
  "requests (stopMediaRecorder s) = requests s"
  "status (stopMediaRecorder s) = status s"
  "error (stopMediaRecorder s) = error s"
  "isCapturingRef (stopMediaRecorder s) = isCapturingRef s"
  "liveTranscript (stopMediaRecorder s) = liveTranscript s"
  "uploads (stopMediaRecorder s) = uploads s"
  "activeStreamRef (stopMediaRecorder s) = activeStreamRef s"
  by (simp_all add: stopMediaRecorder_def Let_def split: option.split prod.split)

lemma releaseSystem_frame [simp]:
  "requests (releaseSystem s) = requests s"
  "status (releaseSystem s) = status s"
  "error (releaseSystem s) = error s"
  "isCapturingRef (releaseSystem s) = isCapturingRef s"
  "liveTranscript (releaseSystem s) = liveTranscript s"
  "uploads (releaseSystem s) = uploads s"
  "activeStreamRef (releaseSystem s) = activeStreamRef s"
  by (simp_all add: releaseSystem_def Let_def split: option.split prod.split)

lemma releaseMic_frame [simp]:
  "requests (releaseMic s) = requests s"
  "status (releaseMic s) = status s"
  "error (releaseMic s) = error s"
  "isCapturingRef (releaseMic s) = isCapturingRef s"
  "liveTranscript (releaseMic s) = liveTranscript s"
  "uploads (releaseMic s) = uploads s"
  "activeStreamRef (releaseMic s) = activeStreamRef s"
  by (simp_all add: releaseMic_def Let_def split: option.split prod.split)

lemma releaseCombined_frame [simp]:
  "requests (releaseCombined s) = requests s"
  "status (releaseCombined s) = status s"
  "error (releaseCombined s) = error s"
  "isCapturingRef (releaseCombined s) = isCapturingRef s"
  "liveTranscript (releaseCombined s) = liveTranscript s"
  "uploads (releaseCombined s) = uploads s"
  "activeStreamRef (releaseCombined s) = activeStreamRef s"
  by (simp_all add: releaseCombined_def Let_def split: option.split prod.split)

lemma closeAudioContext_frame [simp]:
  "requests (closeAudioContext s) = requests s"
  "status (closeAudioContext s) = status s"
  "error (closeAudioContext s) = error s"
  "isCapturingRef (closeAudioContext s) = isCapturingRef s"
  "liveTranscript (closeAudioContext s) = liveTranscript s"
  "uploads (closeAudioContext s) = uploads s"
  "activeStreamRef (closeAudioContext s) = activeStreamRef s"
  by (simp_all add: closeAudioContext_def Let_def split: option.split prod.split)

lemma stopTranscriber_frame [simp]:
  "requests (stopTranscriber s) = requests s"
  "status (stopTranscriber s) = status s"
  "error (stopTranscriber s) = error s"
  "isCapturingRef (stopTranscriber s) = isCapturingRef s"
  "liveTranscript (stopTranscriber s) = liveTranscript s"
  "uploads (stopTranscriber s) = uploads s"
  "activeStreamRef (stopTranscriber s) = activeStreamRef s"
  by (simp_all add: stopTranscriber_def Let_def split: option.split prod.split)

lemma scheduleCycle_frame [simp]:
  "requests (scheduleCycle env s) = requests s"
  "status (scheduleCycle env s) = status s"
  "error (scheduleCycle env s) = error s"
  "isCapturingRef (scheduleCycle env s) = isCapturingRef s"
  "liveTranscript (scheduleCycle env s) = liveTranscript s"
  "uploads (scheduleCycle env s) = uploads s"
  "activeStreamRef (scheduleCycle env s) = activeStreamRef s"
  by (simp_all add: scheduleCycle_def Let_def split: option.split prod.split)

lemma startTranscriptionRecorder_frame [simp]:
  "requests (startTranscriptionRecorder env ok s) = requests s"
  "status (startTranscriptionRecorder env ok s) = status s"
  "error (startTranscriptionRecorder env ok s) = error s"
  "isCapturingRef (startTranscriptionRecorder env ok s) = isCapturingRef s"
  "liveTranscript (startTranscriptionRecorder env ok s) = liveTranscript s"
  "uploads (startTranscriptionRecorder env ok s) = uploads s"
  "activeStreamRef (startTranscriptionRecorder env ok s) = activeStreamRef s"
  by (simp_all add: startTranscriptionRecorder_def Let_def split: option.split prod.split)

lemma resumeMediaRecorder_frame [simp]:
  "requests (resumeMediaRecorder s) = requests s"
  "status (resumeMediaRecorder s) = status s"
  "error (resumeMediaRecorder s) = error s"
  "isCapturingRef (resumeMediaRecorder s) = isCapturingRef s"
  "liveTranscript (resumeMediaRecorder s) = liveTranscript s"
  "uploads (resumeMediaRecorder s) = uploads s"
  "activeStreamRef (resumeMediaRecorder s) = activeStreamRef s"
  by (simp_all add: resumeMediaRecorder_def Let_def split: option.split prod.split)

lemma pauseMediaRecorder_frame [simp]:
  "requests (pauseMediaRecorder s) = requests s"
  "status (pauseMediaRecorder s) = status s"
  "error (pauseMediaRecorder s) = error s"
  "isCapturingRef (pauseMediaRecorder s) = isCapturingRef s"
  "liveTranscript (pauseMediaRecorder s) = liveTranscript s"
  "uploads (pauseMediaRecorder s) = uploads s"
  "activeStreamRef (pauseMediaRecorder s) = activeStreamRef s"
  by (simp_all add: pauseMediaRecorder_def Let_def split: option.split prod.split)

lemma watchTracks_frame [simp]:
  "requests (watchTracks env st s) = requests s"
  "status (watchTracks env st s) = status s"
  "error (watchTracks env st s) = error s"
  "isCapturingRef (watchTracks env st s) = isCapturingRef s"
  "liveTranscript (watchTracks env st s) = liveTranscript s"
  "uploads (watchTracks env st s) = uploads s"
  "activeStreamRef (watchTracks env st s) = activeStreamRef s"
  by (simp_all add: watchTracks_def Let_def split: option.split prod.split)

lemma updateLevel_frame [simp]:
  "requests (updateLevel d s) = requests s"
  "status (updateLevel d s) = status s"
  "error (updateLevel d s) = error s"
  "isCapturingRef (updateLevel d s) = isCapturingRef s"
  "liveTranscript (updateLevel d s) = liveTranscript s"
  "uploads (updateLevel d s) = uploads s"
  "activeStreamRef (updateLevel d s) = activeStreamRef s"
  by (simp_all add: updateLevel_def Let_def split: option.split prod.split)

lemma setupAudioVisualization_frame [simp]:
  "requests (setupAudioVisualization ok d s) = requests s"
  "status (setupAudioVisualization ok d s) = status s"
  "error (setupAudioVisualization ok d s) = error s"
  "isCapturingRef (setupAudioVisualization ok d s) = isCapturingRef s"
  "liveTranscript (setupAudioVisualization ok d s) = liveTranscript s"
  "uploads (setupAudioVisualization ok d s) = uploads s"
  "activeStreamRef (setupAudioVisualization ok d s) = activeStreamRef s"
  by (simp_all add: setupAudioVisualization_def updateLevel_def Let_def split: option.split prod.split)

lemma recordSession_frame [simp]:
  "requests (recordSession ok s) = requests s"
  "status (recordSession ok s) = status s"
  "error (recordSession ok s) = error s"
  "isCapturingRef (recordSession ok s) = isCapturingRef s"
  "liveTranscript (recordSession ok s) = liveTranscript s"
  "uploads (recordSession ok s) = uploads s"
  "activeStreamRef (recordSession ok s) = activeStreamRef s"
  by (simp_all add: recordSession_def Let_def split: option.split prod.split)

lemma cleanup_frame [simp]:
  "requests (cleanup s) = requests s"
  "status (cleanup s) = status s"
  "error (cleanup s) = error s"
  "isCapturingRef (cleanup s) = isCapturingRef s"
  "liveTranscript (cleanup s) = liveTranscript s"
  "uploads (cleanup s) = uploads s"
  "activeStreamRef (cleanup s) = activeStreamRef s"
  by (simp_all add: cleanup_def)

lemma tracks_stage [simp]:
  "tracks (cancelFrame s) = tracks s"
  "tracks (clearTimer s) = tracks s"
  "tracks (dropTranscriber s) = tracks s"
  "tracks (stopMediaRecorder s) = tracks s"
  "tracks (closeAudioContext s) = tracks s"
  "tracks (stopTranscriber s) = tracks s"
  by (simp_all add: cancelFrame_def clearTimer_def dropTranscriber_def stopMediaRecorder_def closeAudioContext_def stopTranscriber_def split: option.split)

lemma length_tracks_release [simp]:
  "length (tracks (releaseSystem s)) = length (tracks s)"
  "length (tracks (releaseMic s)) = length (tracks s)"
  "length (tracks (releaseCombined s)) = length (tracks s)"
  by (simp_all add: releaseSystem_def releaseMic_def releaseCombined_def split: option.split)

lemma ended_release:
  assumes "i < length (tracks s)" and "readyState (tracks s ! i) = Ended"
  shows "readyState (tracks (releaseSystem s) ! i) = Ended"
    and "readyState (tracks (releaseMic s) ! i) = Ended"
    and "readyState (tracks (releaseCombined s) ! i) = Ended"
  using assms
  by (simp_all add: releaseSystem_def releaseMic_def releaseCombined_def ended_stopTracks
      split: option.split)

lemma length_tracks_cleanup [simp]: "length (tracks (cleanup s)) = length (tracks s)"
  by (simp add: cleanup_def)

lemma ended_cleanup:
  assumes "i < length (tracks s)" and "readyState (tracks s ! i) = Ended"
  shows "readyState (tracks (cleanup s) ! i) = Ended"
  using assms by (simp add: cleanup_def ended_release)

text \<open>The definitions a concrete run is evaluated with.\<close>

lemmas eval_defs = run_def mounted_def granted_def silent_def unsupported_def titled_def
  capturing_def uploading_def metadataRejected_def transcriptUnsent_def
  sharingEnded_def
  resumedWhileStopping_def encoderless_def pausing_def sameMillisecond_def
  twoSegments_def heardTwice_def lateAnswer_def canEncode_def freshEncoder_def
  sessionTitles_def saved_def serverError_def heard_def
  render_of_def startDisabled_def stopDisabled_def
  startCapture_def acquireStreams_def captureSystemAudio_def captureMicAudio_def combineStreams_def
  captureSystemAudio_catch_def startCapture_catch_def
  newStream_def getAudioTracks_def getVideoTracks_def isKind_def stopTracks_def stopTrack_def
  setOnended_def setupAudioVisualization_def updateLevel_def titleOrDefault_def
  openSession_def beginCapture_def watchTracks_def postRecordingStart_def recordSession_def
  startServerTranscription_def startTranscriptionRecorder_def scheduleCycle_def
  stopServerTranscription_def stopTranscriber_def cycleTranscriptionRecorder_def
  cleanup_def cancelFrame_def clearTimer_def dropTranscriber_def stopMediaRecorder_def
  releaseSystem_def releaseMic_def releaseCombined_def closeAudioContext_def
  togglePause_def resumeMediaRecorder_def pauseMediaRecorder_def
  stopCapture_def postTranscription_def resetState_def stopCapture_catch_def
  stopCapture_resume_def setStopPhase_def fullTranscript_def entryLine_def
  trackEnded_def dataAvailable_def recorderStopped_def pushChunk_def
  sendBlobForTranscription_def sendBlobForTranscription_read_def
  sendBlobForTranscription_response_def transcribed_def setUploadPhase_def
  notInactive_def hasState_def stopRecorder_def setRecorderState_def clearInterval_def
  closeContext_def persisted_def frequencyBinCount_def fftSize_def neverSampled_def
  trim_def isWhiteSpace_def str_def Let_def

subsection \<open>What the handlers leave alone\<close>

lemma startServerTranscription_frame [simp]:
  "requests (startServerTranscription env ok s) = requests s"
  "liveTranscript (startServerTranscription env ok s) = liveTranscript s"
  "uploads (startServerTranscription env ok s) = uploads s"
  "isCapturingRef (startServerTranscription env ok s) = isCapturingRef s"
  by (simp_all add: startServerTranscription_def)

lemma stopServerTranscription_frame [simp]:
  "requests (stopServerTranscription s) = requests s"
  "liveTranscript (stopServerTranscription s) = liveTranscript s"
  "uploads (stopServerTranscription s) = uploads s"
  "isCapturingRef (stopServerTranscription s) = isCapturingRef s"
  by (simp_all add: stopServerTranscription_def)

lemma cycleTranscriptionRecorder_frame [simp]:
  "requests (cycleTranscriptionRecorder env ok s) = requests s"
  "liveTranscript (cycleTranscriptionRecorder env ok s) = liveTranscript s"
  by (simp_all add: cycleTranscriptionRecorder_def Let_def)

lemma togglePause_frame [simp]:
  "requests (togglePause env ok s) = requests s"
  "liveTranscript (togglePause env ok s) = liveTranscript s"
  "uploads (togglePause env ok s) = uploads s"
  "isCapturingRef (togglePause env ok s) = isCapturingRef s"
  by (simp_all add: togglePause_def)

lemma startCapture_catch_frame [simp]:
  "requests (startCapture_catch err s) = requests s"
  "liveTranscript (startCapture_catch err s) = liveTranscript s"
  by (simp_all add: startCapture_catch_def)

lemma captureSystemAudio_keeps:
  "captureSystemAudio dialog s = Inl (err, s') \<Longrightarrow>
     requests s' = requests s \<and> liveTranscript s' = liveTranscript s"
  "captureSystemAudio dialog s = Inr (st, s') \<Longrightarrow>
     requests s' = requests s \<and> liveTranscript s' = liveTranscript s"
  by (auto simp: captureSystemAudio_def Let_def split: media_answer.splits prod.splits if_splits)

lemma captureMicAudio_keeps:
  "captureMicAudio prompt s = Inl (err, s') \<Longrightarrow>
     requests s' = requests s \<and> liveTranscript s' = liveTranscript s"
  "captureMicAudio prompt s = Inr (st, s') \<Longrightarrow>
     requests s' = requests s \<and> liveTranscript s' = liveTranscript s"
  by (auto simp: captureMicAudio_def Let_def split: media_answer.splits prod.splits)

lemma combineStreams_keeps:
  "combineStreams s = (st, s') \<Longrightarrow>
     requests s' = requests s \<and> liveTranscript s' = liveTranscript s"
  by (auto simp: combineStreams_def Let_def split: prod.splits)



lemma acquireStreams_keeps:
  "(acquireStreams env ans s = Inl (err, s') \<longrightarrow>
      requests s' = requests s \<and> liveTranscript s' = liveTranscript s)
   \<and> (acquireStreams env ans s = Inr (st, s') \<longrightarrow>
      requests s' = requests s \<and> liveTranscript s' = liveTranscript s)"
proof (cases "captureSystemAudio (display ans) s")
  case (Inl x)
  obtain e s1 where x: "x = (e, s1)" by (cases x)
  from Inl x have "acquireStreams env ans s = Inl (e, s1)"
    by (cases "c_captureSource env") (simp_all add: acquireStreams_def)
  with captureSystemAudio_keeps(1) [of "display ans" s e s1] Inl x show ?thesis
    by auto
next
  case (Inr y)
  obtain sys s1 where y: "y = (sys, s1)" by (cases y)
  from captureSystemAudio_keeps(2) [of "display ans" s sys s1] Inr y
  have k1: "requests s1 = requests s" "liveTranscript s1 = liveTranscript s"
    by auto
  let ?s2 = "s1\<lparr>systemStreamRef := Some sys\<rparr>"
  show ?thesis
  proof (cases "c_captureSource env")
    case System
    with Inr y k1 show ?thesis
      by (auto simp: acquireStreams_def)
  next
    case Tab
    with Inr y k1 show ?thesis
      by (auto simp: acquireStreams_def)
  next
    case MicSystem
    show ?thesis
    proof (cases "captureMicAudio (microphone ans) ?s2")
      case (Inl x)
      obtain e s3 where x: "x = (e, s3)" by (cases x)
      from captureMicAudio_keeps(1) [of "microphone ans" ?s2 e s3] Inl x k1
      have "requests s3 = requests s" "liveTranscript s3 = liveTranscript s"
        by auto
      moreover from MicSystem Inr y Inl x have "acquireStreams env ans s = Inl (e, s3)"
        by (simp add: acquireStreams_def)
      ultimately show ?thesis by auto
    next
      case mic: (Inr z)
      obtain m s3 where z: "z = (m, s3)" by (cases z)
      from captureMicAudio_keeps(2) [of "microphone ans" ?s2 m s3] mic z k1
      have k3: "requests s3 = requests s" "liveTranscript s3 = liveTranscript s"
        by auto
      let ?s4 = "s3\<lparr>micStreamRef := Some m\<rparr>"
      obtain a s5 where c: "combineStreams ?s4 = (a, s5)" by (cases "combineStreams ?s4")
      from combineStreams_keeps [OF c] k3
      have k5: "requests s5 = requests s" "liveTranscript s5 = liveTranscript s"
        by auto
      from MicSystem Inr y mic z c
      have "acquireStreams env ans s = Inr (Some a, s5\<lparr>combinedStreamRef := Some a\<rparr>)"
        by (simp add: acquireStreams_def)
      with k5 show ?thesis by auto
    qed
  qed
qed


lemma persisted_same: "requests s' = requests s \<Longrightarrow> persisted s' = persisted s"
  by (simp add: persisted_def)

lemma beginCapture_keeps:
  "requests (beginCapture env ans st m s) = requests s"
  "liveTranscript (beginCapture env ans st m s) = []"
  by (simp_all add: beginCapture_def)

lemma postRecordingStart_keeps:
  "persisted (postRecordingStart env date s) = persisted s"
  "liveTranscript (postRecordingStart env date s) = liveTranscript s"
  by (simp_all add: postRecordingStart_def persisted_def)

lemma openSession_keeps:
  "persisted (openSession env ans st s) = persisted s"
  "liveTranscript (openSession env ans st s) = liveTranscript s
     \<or> liveTranscript (openSession env ans st s) = []"
proof -
  let ?s5 = "postRecordingStart env (today ans)
               (setupAudioVisualization (analyserOk ans) (levelData ans) (watchTracks env st s))"
  have "persisted ?s5 =
      persisted (setupAudioVisualization (analyserOk ans) (levelData ans) (watchTracks env st s))"
    by (rule postRecordingStart_keeps)
  also have "\<dots> = persisted s"
    by (rule persisted_same) simp
  finally have p: "persisted ?s5 = persisted s" .
  have l: "liveTranscript ?s5 = liveTranscript s"
    by (simp add: postRecordingStart_keeps)
  have q: "persisted (startCapture_catch err s') = persisted s'" for err s'
    by (simp add: persisted_def)
  have b: "persisted (beginCapture env ans st m s') = persisted s'" for m s'
    by (simp add: persisted_def beginCapture_keeps)
  show "persisted (openSession env ans st s) = persisted s"
    unfolding openSession_def Let_def
    by (simp add: p q b split: response.split json.split)
  show "liveTranscript (openSession env ans st s) = liveTranscript s
     \<or> liveTranscript (openSession env ans st s) = []"
    unfolding openSession_def Let_def
    by (simp add: l beginCapture_keeps split: response.split json.split)
qed

lemma startCapture_keeps:
  "persisted (startCapture env ans s) = persisted s"
  "liveTranscript (startCapture env ans s) = liveTranscript s
     \<or> liveTranscript (startCapture env ans s) = []"
proof -
  let ?s = "s\<lparr>error := [], status := Requesting\<rparr>"
  have both: "persisted (startCapture env ans s) = persisted s \<and>
     (liveTranscript (startCapture env ans s) = liveTranscript s
       \<or> liveTranscript (startCapture env ans s) = [])"
  proof (cases "acquireStreams env ans ?s")
    case (Inl x)
    obtain err s2 where x: "x = (err, s2)" by (cases x)
    from acquireStreams_keeps [of env ans ?s err s2] Inl x
    have "requests s2 = requests s" "liveTranscript s2 = liveTranscript s"
      by auto
    with Inl x show ?thesis
      by (simp add: startCapture_def persisted_def)
  next
    case (Inr y)
    obtain st s2 where y: "y = (st, s2)" by (cases y)
    from acquireStreams_keeps [of env ans ?s _ s2 st] Inr y
    have k: "requests s2 = requests s" "liveTranscript s2 = liveTranscript s"
      by auto
    then have p: "persisted s2 = persisted s"
      by (simp add: persisted_def)
    show ?thesis
    proof (cases st)
      case None
      with Inr y k show ?thesis
        by (simp add: startCapture_def persisted_def)
    next
      case (Some a)
      with Inr y have "startCapture env ans s = openSession env ans a s2"
        by (simp add: startCapture_def)
      with openSession_keeps [of env ans a s2] k p show ?thesis
        by auto
    qed
  qed
  from both show "persisted (startCapture env ans s) = persisted s" by simp
  from both show "liveTranscript (startCapture env ans s) = liveTranscript s
     \<or> liveTranscript (startCapture env ans s) = []" by simp
qed

lemma resetState_keeps [simp]:
  "requests (resetState s) = requests s"
  "liveTranscript (resetState s) = liveTranscript s"
  "uploads (resetState s) = uploads s"
  by (simp_all add: resetState_def)

lemma stopCapture_keeps [simp]:
  "liveTranscript (stopCapture env s) = liveTranscript s"
  "uploads (stopCapture env s) = uploads s"
  by (simp_all add: stopCapture_def Let_def postTranscription_def split: option.split)

lemma stopCapture_requests:
  "requests (stopCapture env s) =
     (case c_meetingId env of
        None \<Rightarrow> requests s
      | Some m \<Rightarrow>
          if m \<noteq> 0
          then requests s @
            [PostTranscription m (fullTranscript (c_liveTranscript env))
               (c_currentSpeaker env, length (c_liveTranscript env)) (c_selectedLanguage env)]
          else requests s)"
  by (simp add: stopCapture_def Let_def postTranscription_def split: option.split)

lemma stopCapture_resume_keeps [simp]:
  "persisted (stopCapture_resume k date answer s) = persisted s"
  "liveTranscript (stopCapture_resume k date answer s) = liveTranscript s"
  by (simp_all add: stopCapture_resume_def Let_def stopCapture_catch_def persisted_def
      split: response.split)

lemma sendBlobForTranscription_keeps [simp]:
  "requests (sendBlobForTranscription env n s) = requests s"
  "liveTranscript (sendBlobForTranscription env n s) = liveTranscript s"
  by (simp_all add: sendBlobForTranscription_def)

lemma recorderStopped_keeps [simp]:
  "requests (recorderStopped r n s) = requests s"
  "liveTranscript (recorderStopped r n s) = liveTranscript s"
  by (simp_all add: recorderStopped_def Let_def split: recorder_role.split)

lemma dataAvailable_keeps [simp]:
  "requests (dataAvailable r n s) = requests s"
  "liveTranscript (dataAvailable r n s) = liveTranscript s"
  by (simp_all add: dataAvailable_def)

lemma sendBlobForTranscription_read_keeps [simp]:
  "persisted (sendBlobForTranscription_read k ok s) = persisted s"
  "liveTranscript (sendBlobForTranscription_read k ok s) = liveTranscript s"
  by (simp_all add: sendBlobForTranscription_read_def Let_def persisted_def)

lemma sendBlobForTranscription_response_requests [simp]:
  "requests (sendBlobForTranscription_response k now label answer s) = requests s"
  by (simp add: sendBlobForTranscription_response_def Let_def split: sum.split option.split)

lemma trackEnded_transcript [simp]:
  "liveTranscript (trackEnded i s) = liveTranscript s"
  by (simp add: trackEnded_def Let_def split: option.split)

subsection \<open>The uploader\<close>

lemma response_transcript:
  assumes "k < length (uploads s)" and "up_phase (uploads s ! k) = Requested"
  shows "liveTranscript (sendBlobForTranscription_response k now label answer s) =
           (case transcribed (up_env (uploads s ! k)) now label answer of
              Inr (Some e) \<Rightarrow> liveTranscript s @ [e]
            | _ \<Rightarrow> liveTranscript s)"
  using assms
  by (simp add: sendBlobForTranscription_response_def Let_def split: sum.splits option.splits)

text \<open>
  Claim C5.  When the answer to an upload arrives, an entry is appended to the live transcript
  if the response is successful and carries a text that is not empty after trimming, and the
  transcript is unchanged otherwise.  A network failure ends in the \<^verbatim>\<open>catch\<close>: the handler
  returns, and only the transcribing flag and the upload's own record change.
\<close>

theorem upload_appends_iff:
  assumes "k < length (uploads s)" and "up_phase (uploads s ! k) = Requested"
  shows "((\<exists>t. answer = Response True (Parsed (Some t)) \<and> trim t \<noteq> []) \<longrightarrow>
            (\<exists>t. answer = Response True (Parsed (Some t)) \<and>
              liveTranscript (sendBlobForTranscription_response k now label answer s) =
                liveTranscript s @
                  [\<lparr>e_id = now, e_speaker = c_currentSpeaker (up_env (uploads s ! k)),
                    e_text = trim t, e_timestamp = label, e_confidence = 85 / 100\<rparr>]))
       \<and> (\<not> (\<exists>t. answer = Response True (Parsed (Some t)) \<and> trim t \<noteq> []) \<longrightarrow>
            liveTranscript (sendBlobForTranscription_response k now label answer s) =
              liveTranscript s)
       \<and> (\<forall>err. sendBlobForTranscription_response k now label (NetworkError err) s =
            s\<lparr>isTranscribingRef := False, uploads := setUploadPhase k UploadDone (uploads s)\<rparr>)"
proof (intro conjI impI allI)
  assume "\<exists>t. answer = Response True (Parsed (Some t)) \<and> trim t \<noteq> []"
  then obtain t where t: "answer = Response True (Parsed (Some t))" "trim t \<noteq> []" by blast
  then have "t \<noteq> []" by (auto simp: trim_def)
  with t show "\<exists>t. answer = Response True (Parsed (Some t)) \<and>
              liveTranscript (sendBlobForTranscription_response k now label answer s) =
                liveTranscript s @
                  [\<lparr>e_id = now, e_speaker = c_currentSpeaker (up_env (uploads s ! k)),
                    e_text = trim t, e_timestamp = label, e_confidence = 85 / 100\<rparr>]"
    by (simp add: response_transcript [OF assms] transcribed_def)
next
  assume "\<not> (\<exists>t. answer = Response True (Parsed (Some t)) \<and> trim t \<noteq> [])"
  then show "liveTranscript (sendBlobForTranscription_response k now label answer s) =
              liveTranscript s"
    by (auto simp: response_transcript [OF assms] transcribed_def
        split: response.splits json.splits option.splits)
next
  fix err
  show "sendBlobForTranscription_response k now label (NetworkError err) s =
            s\<lparr>isTranscribingRef := False, uploads := setUploadPhase k UploadDone (uploads s)\<rparr>"
    using assms by (simp add: sendBlobForTranscription_response_def transcribed_def)
qed

theorem upload_appends_iff_witness:
  "liveTranscript (sendBlobForTranscription_response 0 1700000000000 (str ''10:00:00'')
       (Response True (Parsed (Some (str '' hello '')))) uploading) =
     [\<lparr>e_id = 1700000000000, e_speaker = str ''Speaker'', e_text = str ''hello'',
       e_timestamp = str ''10:00:00'', e_confidence = 85 / 100\<rparr>]
   \<and> liveTranscript (sendBlobForTranscription_response 0 1700000000000 (str ''10:00:00'')
       (Response True (Parsed (Some (str ''  '')))) uploading) = []
   \<and> liveTranscript (sendBlobForTranscription_response 0 1700000000000 (str ''10:00:00'')
       (Response False (Parsed (Some (str ''hello'')))) uploading) = []"
proof -
  have a: "0 < length (uploads uploading)" and b: "up_phase (uploads uploading ! 0) = Requested"
    by (simp_all add: uploading_def)
  have c: "liveTranscript uploading = []"
    and d: "c_currentSpeaker (up_env (uploads uploading ! 0)) = str ''Speaker''"
    by (simp_all add: uploading_def mounted_def render_of_def)
  have e: "trim (str '' hello '') = str ''hello''" and f: "trim (str ''  '') = []"
    by (simp_all add: trim_def isWhiteSpace_def str_def)
  have g: "str ''hello'' \<noteq> []"
    by (simp add: str_def)
  show ?thesis
    using upload_appends_iff [OF a b, of "Response True (Parsed (Some (str '' hello '')))"
        1700000000000 "str ''10:00:00''"]
      upload_appends_iff [OF a b, of "Response True (Parsed (Some (str ''  '')))"
        1700000000000 "str ''10:00:00''"]
      upload_appends_iff [OF a b, of "Response False (Parsed (Some (str ''hello'')))"
        1700000000000 "str ''10:00:00''"]
    by (simp add: c d e f g)
qed

subsection \<open>Starting\<close>

lemma no_audio_tracks:
  assumes "Audio \<notin> set ks"
  shows "getAudioTracks (fst (newStream ks ts)) (snd (newStream ks ts)) = []"
proof -
  have "\<not> isKind Audio (snd (newStream ks ts)) i"
    if "i \<in> set (fst (newStream ks ts))" for i
  proof -
    from that have i: "length ts \<le> i" "i - length ts < length ks"
      by (auto simp: newStream_def)
    then have "kind (snd (newStream ks ts) ! i) = ks ! (i - length ts)"
      by (simp add: newStream_def nth_append)
    with i assms show ?thesis
      by (auto simp: isKind_def dest: nth_mem)
  qed
  then show ?thesis
    by (simp add: getAudioTracks_def)
qed

lemma noAudioError_facts:
  "captureSystemAudio_catch noAudioError = noAudioError"
  "err_message noAudioError \<noteq> []"
  by (simp_all add: captureSystemAudio_catch_def noAudioError_def)

lemma captureSystemAudio_no_audio:
  assumes "Audio \<notin> set ks"
  shows "captureSystemAudio (Granted ks) s =
           Inl (noAudioError,
                s\<lparr>tracks := stopTracks (fst (newStream ks (tracks s)))
                                (snd (newStream ks (tracks s)))\<rparr>)"
proof (cases "newStream ks (tracks s)")
  case (Pair st ts)
  with no_audio_tracks [OF assms, of "tracks s"] have "getAudioTracks st ts = []"
    by simp
  with Pair show ?thesis
    by (simp add: captureSystemAudio_def noAudioError_facts)
qed

lemma startCapture_no_audio:
  assumes "display ans = Granted ks" and "Audio \<notin> set ks"
  shows "startCapture env ans s =
           startCapture_catch noAudioError
             (s\<lparr>error := [], status := Requesting,
                tracks := stopTracks (fst (newStream ks (tracks s)))
                            (snd (newStream ks (tracks s)))\<rparr>)"
  using assms
  by (cases "c_captureSource env")
     (simp_all add: startCapture_def acquireStreams_def captureSystemAudio_no_audio)

text \<open>
  Claim C4.  When the display stream the dialog returns has no audio track, the start sequence
  fails with the no-audio error: its message is the error shown, every track of the acquired
  stream is stopped, the status is idle again, and no request has been sent to the backend.
\<close>

theorem start_without_audio:
  assumes "display ans = Granted ks" and "Audio \<notin> set ks"
  shows "error (startCapture env ans s) = str (err_message noAudioError)
       \<and> status (startCapture env ans s) = Idle
       \<and> requests (startCapture env ans s) = requests s
       \<and> length (tracks (startCapture env ans s)) = length (tracks s) + length ks
       \<and> (\<forall>i. length (tracks s) \<le> i \<and> i < length (tracks s) + length ks \<longrightarrow>
            readyState (tracks (startCapture env ans s) ! i) = Ended)"
proof -
  let ?ts = "stopTracks (fst (newStream ks (tracks s))) (snd (newStream ks (tracks s)))"
  have len: "length ?ts = length (tracks s) + length ks"
    by (simp add: newStream_def)
  have ended: "readyState (?ts ! i) = Ended"
    if "length (tracks s) \<le> i" "i < length (tracks s) + length ks" for i
    using that by (intro stopTracks_ends) (auto simp: newStream_def)
  show ?thesis
    using len ended
    by (simp add: startCapture_no_audio [OF assms] startCapture_catch_def noAudioError_facts
        ended_cleanup)
qed

theorem start_without_audio_witness:
  "error (startCapture (render_of titled) silent titled) = str (err_message noAudioError)
   \<and> status (startCapture (render_of titled) silent titled) = Idle
   \<and> requests (startCapture (render_of titled) silent titled) = []
   \<and> length (tracks (startCapture (render_of titled) silent titled)) = 1
   \<and> readyState (tracks (startCapture (render_of titled) silent titled) ! 0) = Ended"
proof -
  have a: "display silent = Granted [Video]" and b: "Audio \<notin> set [Video]"
    by (simp_all add: silent_def)
  have c: "requests titled = []" "tracks titled = []"
    by (simp_all add: titled_def mounted_def)
  show ?thesis
    using start_without_audio [OF a b, of "render_of titled" titled]
    by (simp add: c)
qed

lemma titles_same: "requests s' = requests s \<Longrightarrow> sessionTitles s' = sessionTitles s"
  by (simp add: sessionTitles_def)

lemma openSession_titles:
  "sessionTitles (openSession env ans st s) = sessionTitles s
   \<or> sessionTitles (openSession env ans st s) =
       sessionTitles s @ [titleOrDefault (c_meetingTitle env) (today ans)]"
proof -
  let ?s4 = "setupAudioVisualization (analyserOk ans) (levelData ans) (watchTracks env st s)"
  let ?s5 = "postRecordingStart env (today ans) ?s4"
  have "sessionTitles ?s5 = sessionTitles ?s4 @ [titleOrDefault (c_meetingTitle env) (today ans)]"
    by (simp add: postRecordingStart_def sessionTitles_def)
  moreover have "sessionTitles ?s4 = sessionTitles s"
    by (rule titles_same) simp
  ultimately have p: "sessionTitles ?s5 =
      sessionTitles s @ [titleOrDefault (c_meetingTitle env) (today ans)]"
    by simp
  have q: "sessionTitles (startCapture_catch err s') = sessionTitles s'" for err s'
    by (simp add: sessionTitles_def)
  have b: "sessionTitles (beginCapture env ans st m s') = sessionTitles s'" for m s'
    by (simp add: sessionTitles_def beginCapture_keeps)
  show ?thesis
    unfolding openSession_def Let_def
    by (simp add: p q b split: response.split json.split)
qed

lemma startCapture_titles:
  "sessionTitles (startCapture env ans s) = sessionTitles s
   \<or> sessionTitles (startCapture env ans s) =
       sessionTitles s @ [titleOrDefault (c_meetingTitle env) (today ans)]"
proof -
  let ?s = "s\<lparr>error := [], status := Requesting\<rparr>"
  show ?thesis
  proof (cases "acquireStreams env ans ?s")
    case (Inl x)
    obtain err s2 where x: "x = (err, s2)" by (cases x)
    from acquireStreams_keeps [of env ans ?s err s2] Inl x
    have "requests s2 = requests s"
      by auto
    with Inl x show ?thesis
      by (simp add: startCapture_def sessionTitles_def)
  next
    case (Inr y)
    obtain st s2 where y: "y = (st, s2)" by (cases y)
    from acquireStreams_keeps [of env ans ?s _ s2 st] Inr y
    have k: "requests s2 = requests s"
      by auto
    then have p: "sessionTitles s2 = sessionTitles s"
      by (simp add: sessionTitles_def)
    show ?thesis
    proof (cases st)
      case None
      with Inr y k show ?thesis
        by (simp add: startCapture_def sessionTitles_def)
    next
      case (Some a)
      with Inr y have "startCapture env ans s = openSession env ans a s2"
        by (simp add: startCapture_def)
      with openSession_titles [of env ans a s2] p show ?thesis
        by auto
    qed
  qed
qed

lemma stopCapture_titles [simp]: "sessionTitles (stopCapture env s) = sessionTitles s"
  by (simp add: sessionTitles_def stopCapture_requests split: option.split)

lemma trackEnded_titles [simp]: "sessionTitles (trackEnded i s) = sessionTitles s"
proof -
  have "sessionTitles (s\<lparr>tracks := ts\<rparr>) = sessionTitles s" for ts
    by (simp add: sessionTitles_def)
  then show ?thesis
    by (simp add: trackEnded_def Let_def split: option.split)
qed

lemma resume_titles [simp]:
  "sessionTitles (stopCapture_resume k date answer s) = sessionTitles s"
  by (simp add: stopCapture_resume_def Let_def stopCapture_catch_def sessionTitles_def
      split: response.split)

lemma read_titles [simp]:
  "sessionTitles (sendBlobForTranscription_read k ok s) = sessionTitles s"
  by (simp add: sendBlobForTranscription_read_def Let_def sessionTitles_def)

lemma titled_start:
  assumes "\<not> startDisabled s"
  shows "titleOrDefault (c_meetingTitle (render_of s)) date = meetingTitle s
       \<and> trim (meetingTitle s) \<noteq> []"
proof -
  from assms have t: "trim (meetingTitle s) \<noteq> []"
    by (simp add: startDisabled_def)
  then have "meetingTitle s \<noteq> []"
    by (auto simp: trim_def)
  with t show ?thesis
    by (simp add: titleOrDefault_def render_of_def)
qed

lemma step_titles:
  assumes "\<forall>t\<in>set (sessionTitles s). trim t \<noteq> []"
  shows "\<forall>t\<in>set (sessionTitles (step e s)). trim t \<noteq> []"
proof (cases e)
  case (ClickStart ans)
  show ?thesis
  proof (cases "\<not> isCapturing s \<and> \<not> startDisabled s")
    case True
    then have "\<not> startDisabled s" by simp
    from titled_start [OF this, of "today ans"] True
      startCapture_titles [of "render_of s" ans s] assms ClickStart
    show ?thesis by auto
  next
    case False
    with assms ClickStart show ?thesis by auto
  qed
next
  case (BlobRead k ok)
  with assms show ?thesis by simp
next
  case (BackendAnswers k date answer)
  with assms show ?thesis by simp
next
  case ClickStop
  with assms show ?thesis by simp
next
  case (TrackEnds i)
  with assms show ?thesis by simp
qed (use assms in \<open>simp_all add: sessionTitles_def\<close>)

lemma run_titles:
  "\<forall>t\<in>set (sessionTitles s). trim t \<noteq> [] \<Longrightarrow>
     \<forall>t\<in>set (sessionTitles (run es s)). trim t \<noteq> []"
  unfolding run_def
proof (induction es arbitrary: s)
  case Nil
  then show ?case by simp
next
  case (Cons e es)
  from Cons.IH [OF step_titles [OF Cons.prems, of e]] show ?case by simp
qed

text \<open>
  Claim C9.  The start action is the click on the Start Capture button, which is disabled
  while the trimmed title is empty: then the click changes nothing, so no stream is acquired
  and no request is sent.  With a title, while idle, the click runs \<^verbatim>\<open>startCapture\<close>.
  Hence in every run of a mounted component each title sent to \<^verbatim>\<open>/recording/start\<close> is
  not empty after trimming.
\<close>

theorem title_required:
  "(trim (meetingTitle s) = [] \<longrightarrow> step (ClickStart ans) s = s)
   \<and> (trim (meetingTitle s) \<noteq> [] \<and> \<not> isCapturing s \<and> status s \<noteq> Requesting \<longrightarrow>
        step (ClickStart ans) s = startCapture (render_of s) ans s)
   \<and> (\<forall>t\<in>set (sessionTitles (run es mounted)). trim t \<noteq> [])"
proof -
  have "\<forall>t\<in>set (sessionTitles mounted). trim t \<noteq> []"
    by (simp add: sessionTitles_def mounted_def)
  from run_titles [OF this, of es] show ?thesis
    by (simp add: startDisabled_def)
qed

theorem title_required_witness:
  "step (ClickStart granted) mounted = mounted
   \<and> step (ClickStart granted) (mounted\<lparr>meetingTitle := str ''  ''\<rparr>)
       = mounted\<lparr>meetingTitle := str ''  ''\<rparr>
   \<and> step (ClickStart granted) titled = startCapture (render_of titled) granted titled
   \<and> sessionTitles (run [EditTitle (str ''Standup''), ClickStart granted] mounted)
       = [str ''Standup'']
   \<and> trim (str ''Standup'') \<noteq> []"
proof -
  have a: "trim (meetingTitle mounted) = []"
    "trim (meetingTitle (mounted\<lparr>meetingTitle := str ''  ''\<rparr>)) = []"
    by (simp_all add: mounted_def trim_def isWhiteSpace_def str_def)
  have b: "trim (meetingTitle titled) \<noteq> []" "\<not> isCapturing titled"
    "status titled \<noteq> Requesting"
    by (simp_all add: titled_def mounted_def trim_def isWhiteSpace_def str_def)
  have c: "sessionTitles (run [EditTitle (str ''Standup''), ClickStart granted] mounted)
       = [str ''Standup'']"
    by (simp add: eval_defs)
  show ?thesis
    using title_required [of mounted granted]
      title_required [of "mounted\<lparr>meetingTitle := str ''  ''\<rparr>" granted]
      title_required [of titled granted "[EditTitle (str ''Standup''), ClickStart granted]"]
      a b c
    by simp
qed

subsection \<open>Stopping\<close>

text \<open>
  Claim C3, at a stop sequence in which \<^verbatim>\<open>PUT /meetings/7\<close> is answered with status 500.
  \<^verbatim>\<open>stopCapture\<close> does not read \<^verbatim>\<open>response.ok\<close>: the three requests are sent in order, no
  error is shown, the host is told that the meeting was created, and the status is idle.
  Where the first request is rejected instead, the error is shown, tracks and contexts have
  been released and the status is idle; the other two requests are not sent, and the
  capturing flags and the meeting id stay as they were.
\<close>

theorem rejected_update_not_surfaced:
  "error metadataRejected = []
   \<and> status metadataRejected = Idle
   \<and> meetingsCreated metadataRejected = [7]
   \<and> requests metadataRejected =
       [PostRecordingStart (str ''Standup'') (str ''en-US''),
        PostTranscription 7 [] (str ''Speaker'', 0) (str ''en-US''),
        PutMeeting 7 (str ''Standup'') [] (str ''recent''),
        PostRecordingStop 7]
   \<and> error transcriptUnsent = str ''Failed to save recording. Please try again.''
   \<and> status transcriptUnsent = Idle
   \<and> map readyState (tracks transcriptUnsent) = [Ended, Ended]
   \<and> map rec_state (recorders transcriptUnsent) = [Inactive, Inactive]
   \<and> contexts transcriptUnsent = [Closed]
   \<and> requests transcriptUnsent =
       [PostRecordingStart (str ''Standup'') (str ''en-US''),
        PostTranscription 7 [] (str ''Speaker'', 0) (str ''en-US'')]
   \<and> isCapturing transcriptUnsent
   \<and> isCapturingRef transcriptUnsent
   \<and> meetingId transcriptUnsent = Some 7"
  by (simp add: eval_defs)

text \<open>
  Claim C6, at a session whose shared audio track is ended by the platform.  The handler of
  the track calls the \<^verbatim>\<open>stopCapture\<close> of the render in which the session was started, where
  \<^verbatim>\<open>meetingId\<close> is \<^verbatim>\<open>null\<close>: the session is reset, and none of the three requests of the stop
  sequence is sent.
\<close>

theorem ended_track_skips_persistence:
  "readyState (tracks capturing ! 0) = Live
   \<and> isCapturingRef capturing
   \<and> meetingId capturing = Some 7
   \<and> onended (tracks capturing ! 0) = Some (render_of titled)
   \<and> c_meetingId (render_of titled) = None
   \<and> status sharingEnded = Idle
   \<and> isCapturing sharingEnded = False
   \<and> map readyState (tracks sharingEnded) = [Ended, Ended]
   \<and> map cleared (intervals sharingEnded) = [True]
   \<and> map rec_state (recorders sharingEnded) = [Inactive, Inactive]
   \<and> requests sharingEnded = [PostRecordingStart (str ''Standup'') (str ''en-US'')]
   \<and> persisted sharingEnded = []
   \<and> meetingsCreated sharingEnded = []
   \<and> stops sharingEnded = []"
  by (simp add: eval_defs)

lemma step_persisted:
  "\<not> startsStop e \<Longrightarrow> persisted (step e s) = persisted s"
proof (cases e)
  case (ClickStart ans)
  then show ?thesis by (simp add: startCapture_keeps)
next
  case (BlobRead k ok)
  then show ?thesis by simp
next
  case (BackendAnswers k date answer)
  then show ?thesis by simp
qed (simp_all add: persisted_def)

lemma run_persisted:
  "\<forall>e\<in>set es. \<not> startsStop e \<Longrightarrow> persisted (run es s) = persisted s"
  unfolding run_def
  by (induction es arbitrary: s) (simp_all add: step_persisted)

lemma later_answer:
  assumes "k < length (uploads s)" and "up_phase (uploads s ! k) = Requested"
    and "transcribed (up_env (uploads s ! k)) now label answer = Inr (Some e)"
  shows "liveTranscript (step (TranscribeAnswers k now label answer) s) = liveTranscript s @ [e]"
    and "persisted (step (TranscribeAnswers k now label answer) s) = persisted s"
  using assms by (simp_all add: response_transcript persisted_def)

lemma fullTranscript_shape:
  "fullTranscript [] = []"
  "fullTranscript [e] = e_speaker e @ str '' ('' @ e_timestamp e @ str ''): '' @ e_text e"
  "fullTranscript (e # e' # es) =
     (e_speaker e @ str '' ('' @ e_timestamp e @ str ''): '' @ e_text e) @ [0xA, 0xA] @
     fullTranscript (e' # es)"
  by (simp_all add: fullTranscript_def entryLine_def)

text \<open>
  Claim C10.  When \<^verbatim>\<open>stopCapture\<close> is called with a meeting id other than 0 (a truthy
  one), it sends \<^verbatim>\<open>POST /transcription/{meetingId}\<close> with the document built from the transcript it
  closes over, for a click on Stop the transcript of the state: the lines
  \<^verbatim>\<open>speaker (timestamp): text\<close> of its entries, in order, joined by two line feeds.  The
  call starts no upload and leaves the transcript in memory as it is, so an entry of an
  upload answered later, as that of the segment flushed by the stop, is appended to the
  transcript in memory only: whatever happens afterwards, short of another call of
  \<^verbatim>\<open>stopCapture\<close>, the documents sent are the ones sent before and this one.
\<close>

theorem persisted_transcript_is_snapshot:
  assumes "c_meetingId env = Some m" and "m \<noteq> 0" and "\<forall>e\<in>set es. \<not> startsStop e"
  shows "requests (stopCapture env s) =
           requests s @
             [PostTranscription m (fullTranscript (c_liveTranscript env))
                (c_currentSpeaker env, length (c_liveTranscript env)) (c_selectedLanguage env)]
       \<and> persisted (run es (stopCapture env s)) =
           persisted s @ [(m, fullTranscript (c_liveTranscript env))]
       \<and> uploads (stopCapture env s) = uploads s
       \<and> liveTranscript (stopCapture env s) = liveTranscript s
       \<and> (isCapturing s \<and> status s \<noteq> Stopping \<and> meetingId s = Some m \<longrightarrow>
            persisted (run es (step ClickStop s)) =
              persisted s @ [(m, fullTranscript (liveTranscript s))])
       \<and> (\<forall>s' k now label answer e.
            k < length (uploads s') \<and> up_phase (uploads s' ! k) = Requested
            \<and> transcribed (up_env (uploads s' ! k)) now label answer = Inr (Some e) \<longrightarrow>
            liveTranscript (step (TranscribeAnswers k now label answer) s') =
              liveTranscript s' @ [e]
            \<and> persisted (step (TranscribeAnswers k now label answer) s') = persisted s')
       \<and> fullTranscript [] = []
       \<and> (\<forall>e. fullTranscript [e] =
            e_speaker e @ str '' ('' @ e_timestamp e @ str ''): '' @ e_text e)
       \<and> (\<forall>e e' es'. fullTranscript (e # e' # es') =
            (e_speaker e @ str '' ('' @ e_timestamp e @ str ''): '' @ e_text e) @ [0xA, 0xA] @
            fullTranscript (e' # es'))"
proof -
  have req: "requests (stopCapture env' s) =
           requests s @
             [PostTranscription m (fullTranscript (c_liveTranscript env'))
                (c_currentSpeaker env', length (c_liveTranscript env')) (c_selectedLanguage env')]"
    if "c_meetingId env' = Some m" for env'
    using that assms(2) by (simp add: stopCapture_requests)
  have snap: "persisted (run es (stopCapture env' s)) =
           persisted s @ [(m, fullTranscript (c_liveTranscript env'))]"
    if "c_meetingId env' = Some m" for env'
    using assms(3) by (simp add: run_persisted) (simp add: persisted_def req [OF that])
  have click: "persisted (run es (step ClickStop s)) =
      persisted s @ [(m, fullTranscript (liveTranscript s))]"
    if "isCapturing s" "status s \<noteq> Stopping" "meetingId s = Some m"
  proof -
    from that have "step ClickStop s = stopCapture (render_of s) s"
      by (simp add: stopDisabled_def)
    moreover from that have "c_meetingId (render_of s) = Some m"
      "c_liveTranscript (render_of s) = liveTranscript s"
      by (simp_all add: render_of_def)
    ultimately show ?thesis
      using snap [of "render_of s"] by simp
  qed
  from req [OF assms(1)] snap [OF assms(1)] click later_answer fullTranscript_shape
  show ?thesis
    by simp
qed

theorem persisted_transcript_is_snapshot_witness:
  "step ClickStop heardTwice = stopCapture (render_of heardTwice) heardTwice
   \<and> map e_text (liveTranscript heardTwice) = [str ''hello'', str ''world'']
   \<and> persisted (run lateAnswer (stopCapture (render_of heardTwice) heardTwice)) =
       [(7, str ''Speaker (10:00:10): hello'' @ [0xA, 0xA] @ str ''Speaker (10:00:20): world'')]
   \<and> map e_text (liveTranscript (run lateAnswer (stopCapture (render_of heardTwice) heardTwice)))
       = [str ''hello'', str ''world'', str ''late'']
   \<and> status (run lateAnswer (stopCapture (render_of heardTwice) heardTwice)) = Idle"
proof -
  have a: "c_meetingId (render_of heardTwice) = Some 7" and a': "(7::nat) \<noteq> 0"
    and b: "\<forall>e\<in>set lateAnswer. \<not> startsStop e"
    and c: "persisted heardTwice = []"
    by (simp_all add: eval_defs)
  have d: "step ClickStop heardTwice = stopCapture (render_of heardTwice) heardTwice"
    "map e_text (liveTranscript heardTwice) = [str ''hello'', str ''world'']"
    by (simp_all add: eval_defs)
  have e: "map e_text (liveTranscript (run lateAnswer (stopCapture (render_of heardTwice) heardTwice)))
       = [str ''hello'', str ''world'', str ''late'']"
    "status (run lateAnswer (stopCapture (render_of heardTwice) heardTwice)) = Idle"
    by (simp_all add: eval_defs)
  have f: "fullTranscript (c_liveTranscript (render_of heardTwice)) =
      str ''Speaker (10:00:10): hello'' @ [0xA, 0xA] @ str ''Speaker (10:00:20): world''"
    by (simp add: eval_defs)
  show ?thesis
    using persisted_transcript_is_snapshot [OF a a' b, of heardTwice] c d e f
    by simp
qed

subsection \<open>Pausing\<close>


subsection \<open>The ids of the entries\<close>

lemma transcribed_id: "transcribed env now label answer = Inr (Some e) \<Longrightarrow> e_id e = now"
  by (auto simp: transcribed_def split: response.splits json.splits option.splits if_splits)

lemma response_ids:
  "map e_id (liveTranscript (sendBlobForTranscription_response k now label answer s)) =
     map e_id (liveTranscript s)
   \<or> map e_id (liveTranscript (sendBlobForTranscription_response k now label answer s)) =
     map e_id (liveTranscript s) @ [now]"
  by (auto simp: sendBlobForTranscription_response_def Let_def transcribed_id
      split: sum.split option.split)

lemma step_ids:
  "map e_id (liveTranscript (step e s)) = map e_id (liveTranscript s)
   \<or> liveTranscript (step e s) = []
   \<or> map e_id (liveTranscript (step e s)) = map e_id (liveTranscript s) @ clockReading e"
proof (cases e)
  case (ClickStart ans)
  with startCapture_keeps(2) [of "render_of s" ans s] show ?thesis by auto
next
  case (TranscribeAnswers k now label answer)
  with response_ids [of k now label answer s] show ?thesis by auto
next
  case (AnimationFrame f d)
  then show ?thesis by simp
qed simp_all

lemma sorted_after_step:
  fixes xs :: "int list"
  assumes "sorted_wrt (<) (xs @ r @ rest)" and "ys = xs \<or> ys = [] \<or> ys = xs @ r"
  shows "sorted_wrt (<) (ys @ rest)"
proof -
  from assms(1) have "sorted_wrt (<) (xs @ rest)" "sorted_wrt (<) rest"
    "sorted_wrt (<) ((xs @ r) @ rest)"
    by (simp_all add: sorted_wrt_append)
  with assms(2) show ?thesis
    by (elim disjE) simp_all
qed

lemma run_ids:
  "sorted_wrt (<) (map e_id (liveTranscript s) @ concat (map clockReading es)) \<Longrightarrow>
     sorted_wrt (<) (map e_id (liveTranscript (run es s)))"
  unfolding run_def
proof (induction es arbitrary: s)
  case Nil
  then show ?case by simp
next
  case (Cons e es)
  have a: "sorted_wrt (<)
      (map e_id (liveTranscript s) @ clockReading e @ concat (map clockReading es))"
    using Cons.prems by simp
  have b: "map e_id (liveTranscript (step e s)) = map e_id (liveTranscript s)
      \<or> map e_id (liveTranscript (step e s)) = []
      \<or> map e_id (liveTranscript (step e s)) = map e_id (liveTranscript s) @ clockReading e"
    using step_ids [of e s] by auto
  have "sorted_wrt (<) (map e_id (liveTranscript (step e s)) @ concat (map clockReading es))"
    by (rule sorted_after_step [OF a b])
  then show ?case
    using Cons.IH [of "step e s"] by simp
qed

text \<open>
  Claim C8, amended.  The id of an entry is the reading of the wall clock taken when the
  answer to its upload is handled, and entries are appended in the order of the answers.  So
  along every run the ids are strictly increasing, hence unique, provided the readings are
  strictly increasing, after the ids already there.
\<close>

theorem ids_follow_the_clock:
  assumes "sorted_wrt (<) (map e_id (liveTranscript s) @ concat (map clockReading es))"
  shows "sorted_wrt (<) (map e_id (liveTranscript (run es s)))
       \<and> distinct (map e_id (liveTranscript (run es s)))"
  using run_ids [OF assms] strict_sorted_iff by blast

theorem ids_follow_the_clock_witness:
  "sorted_wrt (<) (map e_id (liveTranscript
       (run (twoSegments 1700000000000 1700000010000) capturing)))
   \<and> distinct (map e_id (liveTranscript
       (run (twoSegments 1700000000000 1700000010000) capturing)))
   \<and> map e_id (liveTranscript (run (twoSegments 1700000000000 1700000010000) capturing))
       = [1700000000000, 1700000010000]"
proof -
  have a: "sorted_wrt (<) (map e_id (liveTranscript capturing) @
      concat (map clockReading (twoSegments 1700000000000 1700000010000)))"
    by (simp add: eval_defs)
  have b: "map e_id (liveTranscript (run (twoSegments 1700000000000 1700000010000) capturing))
       = [1700000000000, 1700000010000]"
    by (simp add: eval_defs)
  show ?thesis
    using ids_follow_the_clock [OF a] b by simp
qed

text \<open>
  Claim C8 as stated fails: two answers handled in the same millisecond give two entries with
  the same id.
\<close>

theorem ids_follow_the_clock_counterexample:
  "map e_id (liveTranscript sameMillisecond) = [1700000000000, 1700000000000]
   \<and> map e_text (liveTranscript sameMillisecond) = [str ''hello'', str ''world'']"
  by (simp add: eval_defs)

subsection \<open>The cycling recorder\<close>

lemma stopTranscriber_recorders:
  "length (recorders (stopTranscriber s)) = length (recorders s)"
  "transcriptionRecorderRef s = Some r \<Longrightarrow> notInactive (recorders s) r \<Longrightarrow>
     rec_state (recorders (stopTranscriber s) ! r) = Inactive
     \<and> stopQueued (recorders (stopTranscriber s) ! r)"
  by (simp_all add: stopTranscriber_def stopRecorder_def notInactive_def split: option.split)

lemma stopTranscriber_more [simp]:
  "intervals (stopTranscriber s) = intervals s"
  "transcriptionRecorderRef (stopTranscriber s) = transcriptionRecorderRef s"
  "tracks (stopTranscriber s) = tracks s"
  by (simp_all add: stopTranscriber_def split: option.split)

lemma startTranscriptionRecorder_intervals [simp]:
  "intervals (startTranscriptionRecorder env ok s) = intervals s"
  by (simp add: startTranscriptionRecorder_def split: option.split)

lemma startTranscriptionRecorder_cases:
  "canEncode ok s \<Longrightarrow>
     recorders (startTranscriptionRecorder env ok s) = recorders s @ [freshEncoder env]
     \<and> transcriptionRecorderRef (startTranscriptionRecorder env ok s) = Some (length (recorders s))"
  "\<not> canEncode ok s \<Longrightarrow> startTranscriptionRecorder env ok s = s"
  by (auto simp: startTranscriptionRecorder_def canEncode_def freshEncoder_def split: option.split)

lemma canEncode_stopTranscriber [simp]: "canEncode ok (stopTranscriber s) = canEncode ok s"
  by (simp add: canEncode_def)

lemma cycle_recorders:
  "recorders (cycleTranscriptionRecorder env ok s) =
     (if isCapturingRef s \<and> canEncode ok s
      then recorders (stopTranscriber s) @ [freshEncoder env]
      else recorders (stopTranscriber s))"
  by (cases "canEncode ok s")
     (simp_all add: cycleTranscriptionRecorder_def Let_def startTranscriptionRecorder_cases)

lemma segment_handed_over:
  assumes "r < length (recorders s)" and "stopQueued (recorders s ! r)"
    and "role (recorders s ! r) = Cycle env" and "chunks (recorders s ! r) \<noteq> []"
  shows "recorderStopped r 0 s =
           sendBlobForTranscription env (sum_list (chunks (recorders s ! r)))
             (s\<lparr>recorders := (recorders s)[r := (recorders s ! r)\<lparr>stopQueued := False\<rparr>]\<rparr>)"
  using assms by (simp add: recorderStopped_def Let_def)

text \<open>
  Claim C1, amended.  \<^verbatim>\<open>startServerTranscription\<close> schedules a repeating timer of 10000 ms,
  whose firing runs \<^verbatim>\<open>cycleTranscriptionRecorder\<close> and leaves the timer scheduled.  A firing
  stops the current recorder if it is active, and queues its stop event; a fresh recorder,
  recording in slices of 1000 ms, is started if and only if the capturing flag is set and a
  recorder can be created (the active stream has an audio track and the platform does not
  raise).  The stop event of a recorder hands its chunks over to the uploader as one blob.
\<close>

theorem cycle_every_ten_seconds:
  "intervals (startServerTranscription env ok s) =
     intervals s @ [\<lparr>period = 10000, cleared = False, tick_env = env\<rparr>]
   \<and> (t < length (intervals s) \<and> \<not> cleared (intervals s ! t) \<longrightarrow>
        step (TimerFires t ok) s = cycleTranscriptionRecorder (tick_env (intervals s ! t)) ok s)
   \<and> intervals (cycleTranscriptionRecorder env ok s) = intervals s
   \<and> (\<forall>r. transcriptionRecorderRef s = Some r \<and> notInactive (recorders s) r \<longrightarrow>
        rec_state (recorders (cycleTranscriptionRecorder env ok s) ! r) = Inactive
        \<and> stopQueued (recorders (cycleTranscriptionRecorder env ok s) ! r))
   \<and> (length (recorders (cycleTranscriptionRecorder env ok s)) = Suc (length (recorders s))
        \<longleftrightarrow> isCapturingRef s \<and> canEncode ok s)
   \<and> (isCapturingRef s \<and> canEncode ok s \<longrightarrow>
        last (recorders (cycleTranscriptionRecorder env ok s)) = freshEncoder env
        \<and> timeslice (freshEncoder env) = 1000)
   \<and> (\<not> (isCapturingRef s \<and> canEncode ok s) \<longrightarrow>
        length (recorders (cycleTranscriptionRecorder env ok s)) = length (recorders s))
   \<and> (\<forall>r env'. r < length (recorders s) \<and> stopQueued (recorders s ! r)
          \<and> role (recorders s ! r) = Cycle env' \<and> chunks (recorders s ! r) \<noteq> [] \<longrightarrow>
        recorderStopped r 0 s =
          sendBlobForTranscription env' (sum_list (chunks (recorders s ! r)))
            (s\<lparr>recorders := (recorders s)[r := (recorders s ! r)\<lparr>stopQueued := False\<rparr>]\<rparr>))"
proof (intro conjI allI impI)
  show "intervals (startServerTranscription env ok s) =
     intervals s @ [\<lparr>period = 10000, cleared = False, tick_env = env\<rparr>]"
    by (simp add: startServerTranscription_def scheduleCycle_def)
next
  assume "t < length (intervals s) \<and> \<not> cleared (intervals s ! t)"
  then show "step (TimerFires t ok) s =
      cycleTranscriptionRecorder (tick_env (intervals s ! t)) ok s"
    by simp
next
  show "intervals (cycleTranscriptionRecorder env ok s) = intervals s"
    by (simp add: cycleTranscriptionRecorder_def Let_def)
next
  fix r
  assume a: "transcriptionRecorderRef s = Some r \<and> notInactive (recorders s) r"
  then have r: "r < length (recorders (stopTranscriber s))"
    by (simp add: stopTranscriber_recorders notInactive_def)
  from a stopTranscriber_recorders(2) [of s r]
  have "rec_state (recorders (stopTranscriber s) ! r) = Inactive
      \<and> stopQueued (recorders (stopTranscriber s) ! r)"
    by simp
  with r show "rec_state (recorders (cycleTranscriptionRecorder env ok s) ! r) = Inactive"
    and "stopQueued (recorders (cycleTranscriptionRecorder env ok s) ! r)"
    by (simp_all add: cycle_recorders nth_append)
next
  show "length (recorders (cycleTranscriptionRecorder env ok s)) = Suc (length (recorders s))
        \<longleftrightarrow> isCapturingRef s \<and> canEncode ok s"
    by (simp add: cycle_recorders stopTranscriber_recorders)
next
  assume "isCapturingRef s \<and> canEncode ok s"
  then show "last (recorders (cycleTranscriptionRecorder env ok s)) = freshEncoder env"
    and "timeslice (freshEncoder env) = 1000"
    by (simp_all add: cycle_recorders freshEncoder_def)
next
  assume "\<not> (isCapturingRef s \<and> canEncode ok s)"
  then show "length (recorders (cycleTranscriptionRecorder env ok s)) = length (recorders s)"
    by (simp add: cycle_recorders stopTranscriber_recorders)
next
  fix r env'
  assume "r < length (recorders s) \<and> stopQueued (recorders s ! r)
          \<and> role (recorders s ! r) = Cycle env' \<and> chunks (recorders s ! r) \<noteq> []"
  then show "recorderStopped r 0 s =
          sendBlobForTranscription env' (sum_list (chunks (recorders s ! r)))
            (s\<lparr>recorders := (recorders s)[r := (recorders s ! r)\<lparr>stopQueued := False\<rparr>]\<rparr>)"
    by (simp add: segment_handed_over)
qed

theorem cycle_every_ten_seconds_witness:
  "map period (intervals capturing) = [10000]
   \<and> cleared (intervals capturing ! 0) = False
   \<and> transcriptionRecorderRef capturing = Some 1
   \<and> notInactive (recorders capturing) 1
   \<and> isCapturingRef capturing
   \<and> canEncode True capturing
   \<and> length (recorders (step (TimerFires 0 True) capturing)) = 3
   \<and> rec_state (recorders (step (TimerFires 0 True) capturing) ! 1) = Inactive
   \<and> last (recorders (step (TimerFires 0 True) capturing)) = freshEncoder (render_of titled)"
proof -
  have a: "map period (intervals capturing) = [10000]"
    "cleared (intervals capturing ! 0) = False" "length (intervals capturing) = 1"
    "tick_env (intervals capturing ! 0) = render_of titled"
    "transcriptionRecorderRef capturing = Some 1" "notInactive (recorders capturing) 1"
    "isCapturingRef capturing" "canEncode True capturing" "length (recorders capturing) = 2"
    by (simp_all add: eval_defs)
  show ?thesis
    using cycle_every_ten_seconds [of "render_of titled" True capturing 0] a
    by simp
qed

text \<open>
  Claim C1 as stated fails where the platform cannot create the recorder: the capturing flag
  is set and the timer fires, and no recorder is started.
\<close>

theorem cycle_every_ten_seconds_counterexample:
  "isCapturingRef encoderless
   \<and> status encoderless = Capturing
   \<and> map cleared (intervals encoderless) = [False]
   \<and> recorders encoderless = []
   \<and> isCapturingRef (step (TimerFires 0 False) encoderless)
   \<and> recorders (step (TimerFires 0 False) encoderless) = []"
  by (simp add: eval_defs)

subsection \<open>The level monitor\<close>

lemma neverSampled_stage [simp]:
  "neverSampled (clearTimer s) = neverSampled s"
  "neverSampled (dropTranscriber s) = neverSampled s"
  "neverSampled (stopMediaRecorder s) = neverSampled s"
  "neverSampled (releaseSystem s) = neverSampled s"
  "neverSampled (releaseMic s) = neverSampled s"
  "neverSampled (releaseCombined s) = neverSampled s"
  "neverSampled (closeAudioContext s) = neverSampled s"
  "neverSampled (stopTranscriber s) = neverSampled s"
  "neverSampled (scheduleCycle env s) = neverSampled s"
  "neverSampled (startTranscriptionRecorder env ok s) = neverSampled s"
  "neverSampled (resumeMediaRecorder s) = neverSampled s"
  "neverSampled (pauseMediaRecorder s) = neverSampled s"
  "neverSampled (watchTracks env st s) = neverSampled s"
  "neverSampled (postRecordingStart env date s) = neverSampled s"
  "neverSampled (recordSession ok s) = neverSampled s"
  "neverSampled (postTranscription env m s) = neverSampled s"
  "neverSampled (stopCapture_catch s) = neverSampled s"
  "neverSampled (sendBlobForTranscription env n s) = neverSampled s"
  "neverSampled (sendBlobForTranscription_read k ok s) = neverSampled s"
  "neverSampled (dataAvailable r n s) = neverSampled s"
  by (simp_all add: clearTimer_def dropTranscriber_def stopMediaRecorder_def releaseSystem_def releaseMic_def releaseCombined_def closeAudioContext_def stopTranscriber_def scheduleCycle_def startTranscriptionRecorder_def resumeMediaRecorder_def pauseMediaRecorder_def watchTracks_def postRecordingStart_def recordSession_def postTranscription_def stopCapture_catch_def sendBlobForTranscription_def sendBlobForTranscription_read_def dataAvailable_def
      neverSampled_def Let_def split: option.split)

lemma neverSampled_update [simp]:
  "neverSampled (s\<lparr>status := a\<rparr>) = neverSampled s"
  "neverSampled (s\<lparr>error := b\<rparr>) = neverSampled s"
  "neverSampled (s\<lparr>isPaused := c\<rparr>) = neverSampled s"
  "neverSampled (s\<lparr>tracks := d\<rparr>) = neverSampled s"
  "neverSampled (s\<lparr>recorders := e\<rparr>) = neverSampled s"
  "neverSampled (s\<lparr>transcriptionChunksRef := f\<rparr>) = neverSampled s"
  "neverSampled (s\<lparr>transcriptionRecorderRef := g\<rparr>) = neverSampled s"
  "neverSampled (s\<lparr>isTranscribingRef := h\<rparr>) = neverSampled s"
  "neverSampled (s\<lparr>meetingTitle := i\<rparr>) = neverSampled s"
  "neverSampled (s\<lparr>captureSource := j\<rparr>) = neverSampled s"
  "neverSampled (s\<lparr>systemStreamRef := k\<rparr>) = neverSampled s"
  "neverSampled (s\<lparr>micStreamRef := l\<rparr>) = neverSampled s"
  "neverSampled (s\<lparr>combinedStreamRef := m\<rparr>) = neverSampled s"
  "neverSampled (s\<lparr>audioChunks := n\<rparr>) = neverSampled s"
  "neverSampled (s\<lparr>meetingsCreated := p\<rparr>) = neverSampled s"
  "neverSampled (s\<lparr>stops := q\<rparr>) = neverSampled s"
  by (simp_all add: neverSampled_def)

lemma neverSampled_cancelFrame: "neverSampled s \<Longrightarrow> neverSampled (cancelFrame s)"
  by (simp add: cancelFrame_def neverSampled_def split: option.split)

lemma neverSampled_cleanup: "neverSampled s \<Longrightarrow> neverSampled (cleanup s)"
  by (simp add: cleanup_def neverSampled_cancelFrame)

lemma neverSampled_resetState: "neverSampled s \<Longrightarrow> neverSampled (resetState s)"
  by (simp add: resetState_def neverSampled_def)

lemma neverSampled_transcription [simp]:
  "neverSampled (startServerTranscription env ok s) = neverSampled s"
  "neverSampled (stopServerTranscription s) = neverSampled s"
  "neverSampled (cycleTranscriptionRecorder env ok s) = neverSampled s"
  "neverSampled (togglePause env ok s) = neverSampled s"
  by (simp_all add: startServerTranscription_def stopServerTranscription_def
      cycleTranscriptionRecorder_def togglePause_def Let_def)

lemma neverSampled_response [simp]:
  "neverSampled (sendBlobForTranscription_response k now label answer s) = neverSampled s"
  by (simp add: sendBlobForTranscription_response_def Let_def neverSampled_def
      split: sum.split option.split)

lemma neverSampled_recorderStopped [simp]:
  "neverSampled (recorderStopped r n s) = neverSampled s"
  by (simp add: recorderStopped_def Let_def split: recorder_role.split)

lemma neverSampled_stopCapture: "neverSampled s \<Longrightarrow> neverSampled (stopCapture env s)"
  by (simp add: stopCapture_def Let_def neverSampled_cleanup neverSampled_resetState
      split: option.split)

lemma neverSampled_resume:
  "neverSampled s \<Longrightarrow> neverSampled (stopCapture_resume k date answer s)"
  by (simp add: stopCapture_resume_def Let_def neverSampled_resetState neverSampled_def
      stopCapture_catch_def resetState_def split: response.split)

lemma neverSampled_trackEnded: "neverSampled s \<Longrightarrow> neverSampled (trackEnded i s)"
  by (simp add: trackEnded_def Let_def neverSampled_stopCapture split: option.split)

lemma updateLevel_flag_unset: "\<not> isCapturingRef s \<Longrightarrow> updateLevel dataArray s = s"
  by (simp add: updateLevel_def)

lemma setupAudioVisualization_quiet:
  assumes "\<not> isCapturingRef s"
  shows "neverSampled (setupAudioVisualization ok dataArray s) = neverSampled s"
  using assms
  by (simp add: setupAudioVisualization_def updateLevel_flag_unset neverSampled_def
      split: option.split prod.split)

lemma captureSystemAudio_quiet:
  "captureSystemAudio dialog s = Inl (err, s') \<Longrightarrow>
     neverSampled s' = neverSampled s \<and> isCapturing s' = isCapturing s"
  "captureSystemAudio dialog s = Inr (st, s') \<Longrightarrow>
     neverSampled s' = neverSampled s \<and> isCapturing s' = isCapturing s"
  by (auto simp: captureSystemAudio_def Let_def split: media_answer.splits prod.splits if_splits)

lemma captureMicAudio_quiet:
  "captureMicAudio prompt s = Inl (err, s') \<Longrightarrow>
     neverSampled s' = neverSampled s \<and> isCapturing s' = isCapturing s"
  "captureMicAudio prompt s = Inr (st, s') \<Longrightarrow>
     neverSampled s' = neverSampled s \<and> isCapturing s' = isCapturing s"
  by (auto simp: captureMicAudio_def Let_def split: media_answer.splits prod.splits)

lemma combineStreams_quiet:
  "combineStreams s = (st, s') \<Longrightarrow>
     neverSampled s' = neverSampled s \<and> isCapturing s' = isCapturing s"
  by (auto simp: combineStreams_def Let_def neverSampled_def split: prod.splits)

lemma acquireStreams_quiet:
  "(acquireStreams env ans s = Inl (err, s') \<longrightarrow>
      neverSampled s' = neverSampled s \<and> isCapturing s' = isCapturing s)
   \<and> (acquireStreams env ans s = Inr (st, s') \<longrightarrow>
      neverSampled s' = neverSampled s \<and> isCapturing s' = isCapturing s)"
proof (cases "captureSystemAudio (display ans) s")
  case (Inl x)
  obtain e s1 where x: "x = (e, s1)" by (cases x)
  from Inl x have "acquireStreams env ans s = Inl (e, s1)"
    by (cases "c_captureSource env") (simp_all add: acquireStreams_def)
  with captureSystemAudio_quiet(1) [of "display ans" s e s1] Inl x show ?thesis
    by auto
next
  case (Inr y)
  obtain sys s1 where y: "y = (sys, s1)" by (cases y)
  from captureSystemAudio_quiet(2) [of "display ans" s sys s1] Inr y
  have k1: "neverSampled s1 = neverSampled s" "isCapturing s1 = isCapturing s"
    by auto
  let ?s2 = "s1\<lparr>systemStreamRef := Some sys\<rparr>"
  show ?thesis
  proof (cases "c_captureSource env")
    case System
    with Inr y k1 show ?thesis
      by (auto simp: acquireStreams_def)
  next
    case Tab
    with Inr y k1 show ?thesis
      by (auto simp: acquireStreams_def)
  next
    case MicSystem
    show ?thesis
    proof (cases "captureMicAudio (microphone ans) ?s2")
      case (Inl x)
      obtain e s3 where x: "x = (e, s3)" by (cases x)
      from captureMicAudio_quiet(1) [of "microphone ans" ?s2 e s3] Inl x k1
      have "neverSampled s3 = neverSampled s" "isCapturing s3 = isCapturing s"
        by auto
      moreover from MicSystem Inr y Inl x have "acquireStreams env ans s = Inl (e, s3)"
        by (simp add: acquireStreams_def)
      ultimately show ?thesis by auto
    next
      case mic: (Inr z)
      obtain m s3 where z: "z = (m, s3)" by (cases z)
      from captureMicAudio_quiet(2) [of "microphone ans" ?s2 m s3] mic z k1
      have k3: "neverSampled s3 = neverSampled s" "isCapturing s3 = isCapturing s"
        by auto
      let ?s4 = "s3\<lparr>micStreamRef := Some m\<rparr>"
      obtain a s5 where c: "combineStreams ?s4 = (a, s5)" by (cases "combineStreams ?s4")
      from combineStreams_quiet [OF c] k3
      have k5: "neverSampled s5 = neverSampled s" "isCapturing s5 = isCapturing s"
        by auto
      from MicSystem Inr y mic z c
      have "acquireStreams env ans s = Inr (Some a, s5\<lparr>combinedStreamRef := Some a\<rparr>)"
        by (simp add: acquireStreams_def)
      with k5 show ?thesis by auto
    qed
  qed
qed

lemma neverSampled_catch: "neverSampled s \<Longrightarrow> neverSampled (startCapture_catch err s)"
  by (simp add: startCapture_catch_def neverSampled_cleanup)

lemma neverSampled_beginCapture:
  "neverSampled s \<Longrightarrow> neverSampled (beginCapture env ans st m s)"
  by (simp add: beginCapture_def startServerTranscription_def scheduleCycle_def
      startTranscriptionRecorder_def recordSession_def neverSampled_def split: option.split)

lemma neverSampled_openSession:
  assumes "neverSampled s" and "\<not> isCapturing s"
  shows "neverSampled (openSession env ans st s)"
proof -
  from assms have flag: "\<not> isCapturingRef (watchTracks env st s)"
    by (simp add: neverSampled_def watchTracks_def)
  from assms(1) have q: "neverSampled
      (setupAudioVisualization (analyserOk ans) (levelData ans) (watchTracks env st s))"
    by (simp add: setupAudioVisualization_quiet [OF flag])
  show ?thesis
    unfolding openSession_def Let_def
    by (simp add: q assms(1) neverSampled_catch neverSampled_beginCapture
        split: response.split json.split)
qed

lemma neverSampled_startCapture:
  assumes "neverSampled s" and "\<not> isCapturing s"
  shows "neverSampled (startCapture env ans s)"
proof -
  let ?s = "s\<lparr>error := [], status := Requesting\<rparr>"
  from assms have s: "neverSampled ?s" "\<not> isCapturing ?s"
    by simp_all
  show ?thesis
  proof (cases "acquireStreams env ans ?s")
    case (Inl x)
    obtain err s2 where x: "x = (err, s2)" by (cases x)
    from acquireStreams_quiet [of env ans ?s err s2] Inl x s
    have "neverSampled s2"
      by auto
    with Inl x show ?thesis
      by (simp add: startCapture_def neverSampled_catch)
  next
    case (Inr y)
    obtain st s2 where y: "y = (st, s2)" by (cases y)
    from acquireStreams_quiet [of env ans ?s _ s2 st] Inr y s
    have k: "neverSampled s2" "\<not> isCapturing s2"
      by auto
    show ?thesis
    proof (cases st)
      case None
      with Inr y k show ?thesis
        by (simp add: startCapture_def neverSampled_catch)
    next
      case (Some a)
      with Inr y have "startCapture env ans s = openSession env ans a s2"
        by (simp add: startCapture_def)
      with neverSampled_openSession [OF k] show ?thesis
        by simp
    qed
  qed
qed

lemma neverSampled_step: "neverSampled s \<Longrightarrow> neverSampled (step e s)"
proof (cases e)
  case (ClickStart ans)
  assume "neverSampled s"
  with ClickStart show ?thesis
    by (simp add: neverSampled_startCapture)
next
  case ClickStop
  assume "neverSampled s"
  with ClickStop show ?thesis
    by (simp add: neverSampled_stopCapture)
next
  case (TrackEnds i)
  assume "neverSampled s"
  with TrackEnds show ?thesis
    by (simp add: neverSampled_trackEnded)
next
  case (BackendAnswers k date answer)
  assume "neverSampled s"
  with BackendAnswers show ?thesis
    by (simp add: neverSampled_resume)
next
  case (AnimationFrame f dataArray)
  assume "neverSampled s"
  with AnimationFrame show ?thesis
    by (simp add: neverSampled_def)
qed simp_all

lemma neverSampled_run: "neverSampled s \<Longrightarrow> neverSampled (run es s)"
  unfolding run_def
  by (induction es arbitrary: s) (simp_all add: neverSampled_step)

lemma neverSampled_mounted: "neverSampled mounted"
  by (simp add: neverSampled_def mounted_def)

text \<open>
  Claim C7.  In every run of a mounted component the level monitor samples at no time when
  the session is not capturing, and requests no animation frame then: an animation-frame
  event in a session that is paused, stopping or idle changes nothing.  The callback checks
  the capturing flag before it samples and before it requests the next frame: it returns at
  once when the flag is unset or no analyser is attached, and samples and requests the next
  frame otherwise.  In these runs the monitor does not sample in the capturing state either:
  \<^verbatim>\<open>startCapture\<close> attaches it before it sets the flag, so its first call returns, no
  frame is ever requested and the published level stays 0.
\<close>

theorem level_monitor_gate:
  "frames (run es mounted) = []
   \<and> audioLevel (run es mounted) = 0
   \<and> (status (run es mounted) \<noteq> Capturing \<or> isPaused (run es mounted) \<longrightarrow>
        step (AnimationFrame f dataArray) (run es mounted) = run es mounted)
   \<and> (analyserRef s = None \<or> \<not> isCapturingRef s \<longrightarrow> updateLevel dataArray s = s)
   \<and> (analyserRef s \<noteq> None \<and> isCapturingRef s \<longrightarrow>
        frames (updateLevel dataArray s) = frames s @ [Suc (frameSerial s)]
        \<and> animationFrameRef (updateLevel dataArray s) = Some (Suc (frameSerial s))
        \<and> audioLevel (updateLevel dataArray s) =
            min 100 (of_nat (sum_list dataArray) / 128 / 128 * 100))"
proof -
  from neverSampled_run [OF neverSampled_mounted, of es]
  have "frames (run es mounted) = []" "audioLevel (run es mounted) = 0"
    by (simp_all add: neverSampled_def)
  then show ?thesis
    by (simp add: updateLevel_def Let_def frequencyBinCount_def fftSize_def)
qed

theorem level_monitor_gate_witness:
  "isPaused (run pausing mounted)
   \<and> status (run pausing mounted) = Capturing
   \<and> isCapturingRef (run pausing mounted)
   \<and> analyserRef (run pausing mounted) = Some 0
   \<and> frames (run pausing mounted) = []
   \<and> audioLevel (run pausing mounted) = 0
   \<and> step (AnimationFrame 1 (replicate 128 64)) (run pausing mounted) = run pausing mounted
   \<and> updateLevel (replicate 128 64) mounted = mounted
   \<and> frames (updateLevel (replicate 128 64) (run pausing mounted)) = [1]
   \<and> audioLevel (updateLevel (replicate 128 64) (run pausing mounted)) = 50"
proof -
  have a: "isPaused (run pausing mounted)" "status (run pausing mounted) = Capturing"
    "isCapturingRef (run pausing mounted)" "analyserRef (run pausing mounted) = Some 0"
    "frameSerial (run pausing mounted) = 0" "\<not> isCapturingRef mounted"
    by (simp_all add: eval_defs)
  have b: "sum_list (replicate 128 64) = (8192::nat)"
    by (simp add: sum_list_replicate)
  show ?thesis
    using level_monitor_gate [of pausing 1 "replicate 128 64" mounted]
      level_monitor_gate [of pausing 1 "replicate 128 64" "run pausing mounted"] a
    by (simp add: b)
qed

end
